theory Spec2Isabelle
  imports Complex_Main "HOL-Library.Word" "HOL-Library.Signed_Division"
begin

unbundle bit_operations_syntax

section \<open>Machine types of lscsi.c\<close>

text \<open>
  The code is C for Linux: \<open>int\<close> and \<open>unsigned int\<close> are 32 bits wide, \<open>char\<close> and
  \<open>unsigned char\<close> 8 bits, \<open>unsigned short\<close> 16 bits. A word holds the bit pattern; the
  reading (signed or unsigned) is chosen by the operation, as in C: \<open><s\<close> and \<open>\<le>s\<close>
  compare as \<open>int\<close>, \<open>mod\<close> is the unsigned remainder, \<open>+\<close>, \<open>*\<close> and unary minus wrap.
\<close>

type_synonym cint = "32 word"
type_synonym cuint = "32 word"
type_synonym uchar = "8 word"
type_synonym ushort = "16 word"
type_synonym cchar = "8 word"

text \<open>
  The division of two \<open>int\<close>s truncates towards zero (\<open>sdiv\<close> on the integers);
  the quotient is stored back into 32 bits.
\<close>

definition c_div :: "cint \<Rightarrow> cint \<Rightarrow> cint" where
  "c_div a b = word_of_int (sint a sdiv sint b)"

text \<open>
  A plain \<open>char\<close> is promoted to \<open>int\<close> before \<open>&\<close>: sign-extended where \<open>char\<close> is signed
  (x86). Every use in the code masks the promoted value with at most \<open>0xFF\<close>, so the
  unsigned promotion of other targets gives the same bits (lemma \<open>int_of_char_mask\<close>).
\<close>

definition int_of_char :: "cchar \<Rightarrow> cint" where
  "int_of_char c = scast c"

section \<open>Pointers and the buffers behind them\<close>

text \<open>
  The code only stores pointers and reads through one of them (the sense pointer, after
  the call into the kernel). A pointer is null, the address of the session's own
  \<open>sense\<close> array (\<open>&sp->sense[0]\<close>), or the address of an object of the caller.
\<close>

datatype ptr = NULL | Sp_sense | Caller nat

text \<open>Reading \<open>chars[i]\<close>: defined only inside the object.\<close>

definition peek :: "cchar list \<Rightarrow> nat \<Rightarrow> cchar option" where
  "peek chars i = (if i < length chars then Some (chars ! i) else None)"

section \<open>The request record and the session\<close>

text \<open>The header \<open>sg_io_hdr_t\<close> of \<open><scsi/sg.h>\<close>, field by field.\<close>

record sg_io_hdr =
  interface_id :: cint
  dxfer_direction :: cint
  cmd_len :: uchar
  mx_sb_len :: uchar
  iovec_count :: ushort
  dxfer_len :: cuint
  dxferp :: ptr
  cmdp :: ptr
  sbp :: ptr
  timeout :: cuint
  flags :: cuint
  pack_id :: cint
  usr_ptr :: ptr
  status :: uchar
  masked_status :: uchar
  msg_status :: uchar
  sb_len_wr :: uchar
  host_status :: ushort
  driver_status :: ushort
  resid :: cint
  duration :: cuint
  info :: cuint

text \<open>\<open>struct sp\<close>: the header, the device handle and the session's own sense array.\<close>

record sp =
  sih :: sg_io_hdr
  fd :: cint
  sense :: "cchar list"

text \<open>The constants of \<open><scsi/sg.h>\<close> that the code uses.\<close>

definition SG_DXFER_NONE :: cint where "SG_DXFER_NONE = - 1"
definition SG_DXFER_TO_DEV :: cint where "SG_DXFER_TO_DEV = - 2"
definition SG_DXFER_FROM_DEV :: cint where "SG_DXFER_FROM_DEV = - 3"
definition SG_INFO_OK_MASK :: cuint where "SG_INFO_OK_MASK = 0x1"
definition SG_INFO_OK :: cuint where "SG_INFO_OK = 0x0"

definition USUAL_SENSE :: cint where "USUAL_SENSE = 0x12"
definition USUAL_SECONDS :: cint where "USUAL_SECONDS = 28 * 60 * 60"

text \<open>
  The result bits \<open>SP_THRU\<close>, ... are macros of \<open>xscsi.h\<close>, which is not among the
  sources. Every function that uses them takes them as a parameter, so each theorem
  holds for whatever values the header gives them.
\<close>

record sp_bits =
  SP_THRU :: cint
  SP_DATA_THRU :: cint
  SP_SENSE_THRU :: cint
  SP_RESIDUE :: cint
  SP_SENSE :: cint
  SP_DEFERRED :: cint
  SP_SK :: cint
  SP_ASC :: cint
  SP_ASCQ :: cint

section \<open>Fatal exits\<close>

text \<open>
  \<open>exits(st, file, line)\<close> prints and calls \<open>exit(-line)\<close>: the function that calls it
  does not return. The model returns the message and the line instead of a result.
\<close>

datatype fatal = Exits string nat

section \<open>The setters\<close>

text \<open>What \<open>memset(sih, '\0', sizeof *sih)\<close> leaves.\<close>

definition zero_sih :: sg_io_hdr where
  "zero_sih = \<lparr> interface_id = 0, dxfer_direction = 0, cmd_len = 0, mx_sb_len = 0,
     iovec_count = 0, dxfer_len = 0, dxferp = NULL, cmdp = NULL, sbp = NULL,
     timeout = 0, flags = 0, pack_id = 0, usr_ptr = NULL, status = 0,
     masked_status = 0, msg_status = 0, sb_len_wr = 0, host_status = 0,
     driver_status = 0, resid = 0, duration = 0, info = 0 \<rparr>"

definition sp_cdb :: "sp \<Rightarrow> ptr \<Rightarrow> cint \<Rightarrow> fatal + (ptr \<times> sp)" where
  "sp_cdb s cdb mx =
     (let uch = (ucast mx :: uchar) in
      if (ucast uch :: cint) \<noteq> mx then Inl (Exits ''large'' 131)
      else
        let sih' = (sih s)\<lparr>cmd_len := uch, cmdp := cdb\<rparr>
        in Inr (cmdp sih', s\<lparr>sih := sih'\<rparr>))"

definition sp_data :: "sp \<Rightarrow> ptr \<Rightarrow> cint \<Rightarrow> ptr \<times> sp" where
  "sp_data s data mx =
     (let sih' = (sih s)\<lparr>dxfer_len := mx, dxferp := data\<rparr>
      in (dxferp sih', s\<lparr>sih := sih'\<rparr>))"

definition sp_sense :: "sp \<Rightarrow> ptr \<Rightarrow> cint \<Rightarrow> fatal + (ptr \<times> sp)" where
  "sp_sense s sense_p mx =
     (let uch = (ucast mx :: uchar) in
      if (ucast uch :: cint) \<noteq> mx then Inl (Exits ''large'' 153)
      else
        let sih' = (sih s)\<lparr>mx_sb_len := uch, sbp := sense_p\<rparr>
        in Inr (sbp sih', s\<lparr>sih := sih'\<rparr>))"

text \<open>Line 164: \<open>(s * 1000) + ((ns + 999999) / 1000 / 1000)\<close>, in \<open>int\<close>.\<close>

definition late_ms :: "cint \<Rightarrow> cint \<Rightarrow> cint" where
  "late_ms s ns = (s * 1000) + c_div (c_div (ns + 999999) 1000) 1000"

text \<open>
  \<open>sih->timeout\<close> is unsigned, so \<open>%\<close> in the return value is the unsigned remainder.
\<close>

definition sp_late :: "sp \<Rightarrow> cint \<Rightarrow> cint \<Rightarrow> fatal + (cint \<times> sp)" where
  "sp_late sp0 s ns =
     (let ms = late_ms s ns in
      if c_div ms 1000 \<noteq> s then Inl (Exits ''large'' 165)
      else
        let sih' = (sih sp0)\<lparr>timeout := ms\<rparr>
        in Inr ((timeout sih' mod 1000) * 1000 * 1000, sp0\<lparr>sih := sih'\<rparr>))"

text \<open>
  \<open>sp_zero\<close> calls \<open>sp_sense\<close> and \<open>sp_late\<close>; were one of them to exit, so would it.
\<close>

definition sp_zero :: "sp \<Rightarrow> fatal + sp" where
  "sp_zero sp0 =
     (let sp1 = sp0\<lparr>sih := zero_sih\<lparr>interface_id := 0x53,
                                     dxfer_direction := SG_DXFER_NONE\<rparr>\<rparr>
      in case sp_sense sp1 Sp_sense USUAL_SENSE of
           Inl e \<Rightarrow> Inl e
         | Inr (_, sp2) \<Rightarrow>
             (case sp_late sp2 USUAL_SECONDS 0 of
                Inl e \<Rightarrow> Inl e
              | Inr (_, sp3) \<Rightarrow> Inr sp3))"

section \<open>The sense decoder\<close>

definition lsb :: "cint \<Rightarrow> cint" where
  "lsb m = m AND (- m)"

text \<open>
  A computation that reads bytes of \<open>chars\<close>: the indices it has dereferenced, in program
  order, and its value, which is \<open>None\<close> once a read fell outside the object (where C
  leaves the behaviour undefined).
\<close>

type_synonym 'a rd = "nat list \<times> 'a option"

definition rd_return :: "'a \<Rightarrow> 'a rd" where
  "rd_return x = ([], Some x)"

definition rd_bind :: "'a rd \<Rightarrow> ('a \<Rightarrow> 'b rd) \<Rightarrow> 'b rd" where
  "rd_bind m f =
     (case m of
        (tr, None) \<Rightarrow> (tr, None)
      | (tr, Some x) \<Rightarrow> (case f x of (tr', y) \<Rightarrow> (tr @ tr', y)))"

definition rd_peek :: "cchar list \<Rightarrow> nat \<Rightarrow> cchar rd" where
  "rd_peek chars i = ([i], peek chars i)"

text \<open>Lines 204 to 210: the valid length after the additional length \<open>al\<close> is applied.\<close>

definition sense_clamp :: "cchar \<Rightarrow> cint \<Rightarrow> cint" where
  "sense_clamp c7 len =
     (let al = int_of_char c7 AND 0xFF in
      if al \<noteq> 0x00 then
        (let mx = 7 + 1 + al in if mx <s len then mx else len)
      else len)"

definition int_from_sense_rd :: "sp_bits \<Rightarrow> cchar list \<Rightarrow> cint \<Rightarrow> cint rd" where
  "int_from_sense_rd K chars len =
     (if 2 <s len then
        rd_bind (rd_peek chars 2) (\<lambda>c2.
        rd_bind (rd_peek chars 0) (\<lambda>c0.
          let sk = int_of_char c2 AND 0x0F;
              response_code = int_of_char c0 AND 0x7F
          in
            if response_code = 0x70 \<or> response_code = 0x71 then
              let e1 = SP_THRU K OR SP_SENSE K;
                  e2 = (if response_code \<noteq> 0x70 then e1 OR SP_DEFERRED K else e1);
                  e3 = e2 OR (sk * lsb (SP_SK K))
              in
                rd_bind
                  (if 7 <s len
                   then rd_bind (rd_peek chars 7) (\<lambda>c7. rd_return (sense_clamp c7 len))
                   else rd_return len) (\<lambda>len'.
                rd_bind
                  (if 0xC <s len'
                   then rd_bind (rd_peek chars 0xC) (\<lambda>c.
                          rd_return (e3 OR ((int_of_char c AND 0xFF) * lsb (SP_ASC K))))
                   else rd_return e3) (\<lambda>e4.
                if 0xD <s len'
                then rd_bind (rd_peek chars 0xD) (\<lambda>c.
                       rd_return (e4 OR ((int_of_char c AND 0xFF) * lsb (SP_ASCQ K))))
                else rd_return e4))
            else rd_return (SP_THRU K)))
      else rd_return (SP_THRU K))"

text \<open>The exit int of \<open>int_from_sense\<close>, and the indices of \<open>chars\<close> it reads to get it.\<close>

definition int_from_sense :: "sp_bits \<Rightarrow> cchar list \<Rightarrow> cint \<Rightarrow> cint option" where
  "int_from_sense K chars len = snd (int_from_sense_rd K chars len)"

definition int_from_sense_reads :: "sp_bits \<Rightarrow> cchar list \<Rightarrow> cint \<Rightarrow> nat list" where
  "int_from_sense_reads K chars len = fst (int_from_sense_rd K chars len)"

section \<open>The transfer\<close>

text \<open>
  \<open>ioctl(fd, SG_IO, sih)\<close> is the kernel's: its return value, the header as the kernel
  leaves it, and the memory behind the pointers afterwards (the session's own sense
  array and the objects of the caller) are inputs of the model. \<open>sp_open\<close> and
  \<open>sp_close\<close>, which only call into the operating system and \<open>sp_zero\<close>, are not
  modelled.
\<close>

record ioctl_reply =
  ioctl_ret :: cint
  ioctl_sih :: sg_io_hdr
  ioctl_sense :: "cchar list"
  ioctl_mem :: "nat \<Rightarrow> cchar list"

fun deref :: "ioctl_reply \<Rightarrow> ptr \<Rightarrow> cchar list" where
  "deref r NULL = []"
| "deref r Sp_sense = ioctl_sense r"
| "deref r (Caller a) = ioctl_mem r a"

text \<open>
  \<open>sp_speak\<close> reads \<open>dxfer_len\<close>, \<open>sbp\<close> and \<open>mx_sb_len\<close> before the call, and \<open>resid\<close>,
  \<open>sb_len_wr\<close> and \<open>info\<close> after it. The exit int is \<open>None\<close> where \<open>int_from_sense\<close>
  would read outside the sense object.
\<close>

definition sp_speak :: "sp_bits \<Rightarrow> sp \<Rightarrow> ioctl_reply \<Rightarrow> cint option \<times> sp" where
  "sp_speak K sp0 r =
     (let mx = dxfer_len (sih sp0);
          sense_chars = sbp (sih sp0);
          sense_max = (ucast (mx_sb_len (sih sp0)) :: cint);
          i = ioctl_ret r;
          sp1 = sp0\<lparr>sih := ioctl_sih r, sense := ioctl_sense r\<rparr>;
          residue = resid (sih sp1);
          sense_enough = (ucast (sb_len_wr (sih sp1)) :: cint);
          exit_int =
            (if i <s 0 then Some (SP_THRU K)
             else if residue <s 0 \<or> mx <s residue then
               Some (SP_THRU K OR SP_DATA_THRU K)
             else if info (sih sp1) AND SG_INFO_OK_MASK \<noteq> SG_INFO_OK then
               (if sense_enough <s 0 \<or> sense_max <s sense_enough then
                  Some (SP_THRU K OR SP_SENSE_THRU K)
                else
                  (case int_from_sense K (deref r sense_chars) sense_enough of
                     None \<Rightarrow> None
                   | Some d \<Rightarrow>
                       (let e = SP_THRU K OR d
                        in Some (if 0 \<noteq> residue then e OR SP_RESIDUE K else e))))
             else Some residue)
      in (exit_int, sp1))"

definition sp_read :: "sp_bits \<Rightarrow> sp \<Rightarrow> ptr \<Rightarrow> cint \<Rightarrow> ioctl_reply \<Rightarrow> cint option \<times> sp" where
  "sp_read K sp0 to mx r =
     (let sp1 = snd (sp_data sp0 to mx);
          sp2 = sp1\<lparr>sih := (sih sp1)\<lparr>dxfer_direction := SG_DXFER_FROM_DEV\<rparr>\<rparr>
      in sp_speak K sp2 r)"

definition sp_write :: "sp_bits \<Rightarrow> sp \<Rightarrow> ptr \<Rightarrow> cint \<Rightarrow> ioctl_reply \<Rightarrow> cint option \<times> sp" where
  "sp_write K sp0 from mx r =
     (let sp1 = snd (sp_data sp0 from mx);
          sp2 = sp1\<lparr>sih := (sih sp1)\<lparr>dxfer_direction := SG_DXFER_TO_DEV\<rparr>\<rparr>
      in sp_speak K sp2 r)"

definition sp_data_enough :: "sp \<Rightarrow> cint" where
  "sp_data_enough s = dxfer_len (sih s) - resid (sih s)"

definition sp_sense_enough :: "sp \<Rightarrow> cint" where
  "sp_sense_enough s = ucast (sb_len_wr (sih s))"

section \<open>The header's contract and sample inputs\<close>

text \<open>
  The bit layout of the result integer is fixed by \<open>xscsi.h\<close>, which is not among the
  sources. Section 6 of the specification gives its contract: one reserved pattern for
  "pass-through failed", distinct from every non-negative residue; independent OR-able
  flag bits; and three disjoint multi-bit fields for Sense Key, ASC and ASCQ, each
  with a fixed shift and mask. Theorems about single bits of a result assume this
  contract and nothing else about the constants.
\<close>

text \<open>
  Modelled from the spec: a field of \<open>w\<close> bits of the result integer, as a mask of \<open>w\<close>
  ones shifted to the field's least significant bit. The decoder fills the Sense Key
  field with 4 bits and the ASC and ASCQ fields with 8 bits each.
\<close>

definition bit_field :: "nat \<Rightarrow> cint \<Rightarrow> bool" where
  "bit_field w m \<longleftrightarrow> (\<exists>k \<in> {0 .. 32 - w}. m = push_bit k (mask w))"

text \<open>
  Modelled from the spec: "independent" flags and "disjoint" fields, as masks no two of
  which share a bit.
\<close>

fun disjoint_bits :: "cint list \<Rightarrow> bool" where
  "disjoint_bits [] = True"
| "disjoint_bits (x # xs) = ((\<forall>y \<in> set xs. x AND y = 0) \<and> disjoint_bits xs)"

text \<open>
  Modelled from the spec: the contract of section 6 on the nine constants of
  \<open>xscsi.h\<close>. The marker is negative, every flag has a bit, the three fields are
  shifted masks, and no two of the nine share a bit.
\<close>

definition layout_ok :: "sp_bits \<Rightarrow> bool" where
  "layout_ok K \<longleftrightarrow>
     SP_THRU K <s 0
   \<and> (\<forall>f \<in> set [SP_DATA_THRU K, SP_SENSE_THRU K, SP_RESIDUE K, SP_SENSE K, SP_DEFERRED K].
        f \<noteq> 0)
   \<and> bit_field 4 (SP_SK K) \<and> bit_field 8 (SP_ASC K) \<and> bit_field 8 (SP_ASCQ K)
   \<and> disjoint_bits [SP_THRU K, SP_DATA_THRU K, SP_SENSE_THRU K, SP_RESIDUE K,
                     SP_SENSE K, SP_DEFERRED K, SP_SK K, SP_ASC K, SP_ASCQ K]"

text \<open>
  Modelled from the spec: one layout that meets the contract above, to run the
  functions on concrete inputs. The values are not taken from \<open>xscsi.h\<close>; no theorem
  below depends on them other than the evaluations at sample inputs.
\<close>

definition sample_bits :: sp_bits where
  "sample_bits = \<lparr> SP_THRU = 0x80000000, SP_DATA_THRU = 0x40000000,
     SP_SENSE_THRU = 0x20000000, SP_RESIDUE = 0x10000000, SP_SENSE = 0x08000000,
     SP_DEFERRED = 0x04000000, SP_SK = 0x000F0000, SP_ASC = 0x0000FF00,
     SP_ASCQ = 0x000000FF \<rparr>"

text \<open>The header that \<open>sp_zero\<close> leaves: zeroes and the usual sense and timeout.\<close>

definition usual_sih :: sg_io_hdr where
  "usual_sih = zero_sih\<lparr>interface_id := 0x53, dxfer_direction := - 1,
     mx_sb_len := 0x12, sbp := Sp_sense, timeout := 100800000\<rparr>"

text \<open>A session after \<open>sp_zero\<close>, on handle 3.\<close>

definition sample_sp :: sp where
  "sample_sp = \<lparr> sih = usual_sih, fd = 3, sense = replicate 16384 0 \<rparr>"

text \<open>
  A reply of the kernel to a request of \<open>sample_sp\<close>: return value \<open>i\<close>, residue \<open>res\<close>,
  info \<open>nfo\<close>, and \<open>bytes\<close> written to the front of the session's sense array.
\<close>

definition reply_of :: "cint \<Rightarrow> cint \<Rightarrow> cuint \<Rightarrow> cchar list \<Rightarrow> ioctl_reply" where
  "reply_of i res nfo bytes =
     \<lparr> ioctl_ret = i,
       ioctl_sih = usual_sih\<lparr>resid := res, info := nfo,
                              sb_len_wr := word_of_nat (length bytes)\<rparr>,
       ioctl_sense = bytes @ replicate (16384 - length bytes) 0,
       ioctl_mem = (\<lambda>a. []) \<rparr>"

text \<open>
  The valid length after clamping, in the words of section 4.4 of the specification:
  if the valid length exceeds 7 and byte 7 is nonzero, the minimum of the valid length
  and 8 plus byte 7.
\<close>

definition effective_length :: "cchar list \<Rightarrow> int \<Rightarrow> int" where
  "effective_length chars n =
     (if 7 < n \<and> uint (chars ! 7) \<noteq> 0 then min n (8 + uint (chars ! 7)) else n)"

text \<open>
  The ceiling of a number of nanoseconds in milliseconds, in the words of section 4.2
  of the specification.
\<close>

definition ceil_ms :: "int \<Rightarrow> int" where
  "ceil_ms n = \<lceil>real_of_int n / 1000000\<rceil>"

text \<open>The 14 sense bytes of the example in section 8 of the specification.\<close>

definition sense_example :: "cchar list" where
  "sense_example = [0x70, 0x00, 0x05, 0, 0, 0, 0, 0x0A, 0, 0, 0, 0, 0x21, 0x22]"

text \<open>A session in which every field of the header is in use, on handle 7.\<close>

definition dirty_sp :: sp where
  "dirty_sp = \<lparr> sih = \<lparr> interface_id = 0x55, dxfer_direction = - 3, cmd_len = 10,
       mx_sb_len = 0xFF, iovec_count = 0x5555, dxfer_len = 2048, dxferp = Caller 1,
       cmdp = Caller 2, sbp = Caller 3, timeout = 5000, flags = 0x55, pack_id = 0x55,
       usr_ptr = Caller 4, status = 2, masked_status = 1, msg_status = 0x55,
       sb_len_wr = 14, host_status = 0x5555, driver_status = 8, resid = 5,
       duration = 0x55, info = 1 \<rparr>,
     fd = 7, sense = [0x70, 0x55] \<rparr>"

section \<open>Words as C integers\<close>

lemma stb31:
  "- 2147483648 \<le> k \<Longrightarrow> k < 2147483648 \<Longrightarrow> signed_take_bit 31 (k::int) = k"
  using signed_take_bit_int_eq_self [of 31 k] by simp

lemma sint32_uint:
  "sint (x::cint) = (if uint x < 2147483648 then uint x else uint x - 4294967296)"
proof -
  have b: "0 \<le> uint x" "uint x < 4294967296"
    using uint_bounded [of x] by simp_all
  have e: "sint x = (uint x + 2147483648) mod 4294967296 - 2147483648"
    by (simp add: sint_uint signed_take_bit_eq_take_bit_shift take_bit_eq_mod)
  show ?thesis
  proof (cases "uint x < 2147483648")
    case True
    with b have "(uint x + 2147483648) mod 4294967296 = uint x + 2147483648"
      by (intro mod_pos_pos_trivial) linarith+
    with e True show ?thesis by simp
  next
    case False
    have "uint x + 2147483648 = uint x - 2147483648 + 4294967296"
      by linarith
    then have "(uint x + 2147483648) mod 4294967296
                 = (uint x - 2147483648 + 4294967296) mod 4294967296"
      by (rule arg_cong)
    also have "\<dots> = (uint x - 2147483648) mod 4294967296"
      by (simp only: mod_add_self2)
    also have "\<dots> = uint x - 2147483648"
      using b False by (intro mod_pos_pos_trivial) linarith+
    finally show ?thesis using e False by simp
  qed
qed

lemma sint_word_of_int32:
  "- 2147483648 \<le> k \<Longrightarrow> k < 2147483648 \<Longrightarrow> sint (word_of_int k :: cint) = k"
  by (simp add: sint_sbintrunc' stb31)

lemma neg_iff_bit31: "(x :: cint) <s 0 \<longleftrightarrow> bit x 31"
  using bit_last_iff [of x] by (simp add: word_sless_alt)

lemma nonneg_lacks_negative_pattern:
  assumes "0 \<le>s (x::cint)" and "t <s 0"
  shows "x AND t \<noteq> t"
proof
  assume c: "x AND t = t"
  from assms(2) have "bit t 31" by (simp add: neg_iff_bit31)
  with c have "bit (x AND t) 31" by simp
  then have "bit x 31" by (simp add: bit_and_iff)
  then have "x <s 0" by (simp add: neg_iff_bit31)
  with assms(1) show False by (simp add: word_sless_alt word_sle_eq)
qed

lemma uint_ucast_down: "uint (ucast (mx :: cint) :: uchar) = uint mx mod 256"
  by (simp add: unsigned_ucast_eq take_bit_eq_mod)

lemma uint_ucast_up: "uint (ucast (c :: uchar) :: cint) = uint c"
proof -
  have "uint c < 256" using uint_bounded [of c] by simp
  then show ?thesis by (simp add: unsigned_ucast_eq take_bit_eq_mod)
qed

lemma sint_ucast8: "sint (ucast (c :: uchar) :: cint) = uint c"
proof -
  have "uint c < 256" using uint_bounded [of c] by simp
  then show ?thesis by (simp add: sint32_uint uint_ucast_up)
qed

text \<open>\<open>uch != max\<close> is false exactly for the lengths 0 to 255.\<close>

lemma fits_uchar:
  "(ucast (ucast (mx :: cint) :: uchar) :: cint) = mx \<longleftrightarrow> 0 \<le>s mx \<and> mx \<le>s 255"
proof -
  have b: "0 \<le> uint mx" "uint mx < 4294967296"
    using uint_bounded [of mx] by simp_all
  have "(ucast (ucast mx :: uchar) :: cint) = mx \<longleftrightarrow> uint mx mod 256 = uint mx"
    by (simp add: word_uint_eq_iff uint_ucast_up uint_ucast_down)
  also have "\<dots> \<longleftrightarrow> uint mx < 256"
  proof
    assume "uint mx mod 256 = uint mx"
    moreover have "uint mx mod 256 < 256" by simp
    ultimately show "uint mx < 256" by simp
  next
    assume "uint mx < 256"
    with b show "uint mx mod 256 = uint mx" by (intro mod_pos_pos_trivial)
  qed
  also have "\<dots> \<longleftrightarrow> 0 \<le> sint mx \<and> sint mx \<le> 255"
    using b unfolding sint32_uint by (cases "uint mx < 2147483648") (simp_all, linarith+)
  finally show ?thesis by (simp add: word_sle_eq)
qed

lemma uint_fits_uchar:
  assumes "0 \<le>s (mx::cint)" "mx \<le>s 255"
  shows "uint (ucast mx :: uchar) = sint mx"
proof -
  have b: "0 \<le> uint mx" "uint mx < 4294967296"
    using uint_bounded [of mx] by simp_all
  from assms have s: "0 \<le> sint mx" "sint mx \<le> 255" by (simp_all add: word_sle_eq)
  then have "uint mx = sint mx" using b by (simp add: sint32_uint split: if_splits)
  moreover have "sint mx mod 256 = sint mx" using s by (intro mod_pos_pos_trivial) linarith+
  ultimately show ?thesis by (simp add: uint_ucast_down)
qed

section \<open>The setters and the reset\<close>

text \<open>
  C8. For every length from 0 to 255, \<open>sp_cdb\<close> and \<open>sp_sense\<close> return the pointer they
  were given and store it with exactly that length in the 8-bit field \<open>cmd_len\<close>
  (\<open>mx_sb_len\<close>); for every other length, negative or above 255, both exit with
  "large" and do not return.
\<close>

theorem sp_cdb_sp_sense_length:
  "(0 \<le>s mx \<and> mx \<le>s 255 \<longrightarrow>
      sp_cdb s p mx = Inr (p, s\<lparr>sih := (sih s)\<lparr>cmd_len := ucast mx, cmdp := p\<rparr>\<rparr>)
    \<and> sp_sense s p mx = Inr (p, s\<lparr>sih := (sih s)\<lparr>mx_sb_len := ucast mx, sbp := p\<rparr>\<rparr>)
    \<and> uint (ucast mx :: uchar) = sint mx)
   \<and> (\<not> (0 \<le>s mx \<and> mx \<le>s 255) \<longrightarrow>
      sp_cdb s p mx = Inl (Exits ''large'' 131)
    \<and> sp_sense s p mx = Inl (Exits ''large'' 153))"
  using fits_uchar [of mx] uint_fits_uchar [of mx]
  by (auto simp add: sp_cdb_def sp_sense_def Let_def)

theorem sp_cdb_sp_sense_length_witness:
  "cmd_len (sih (snd (projr (sp_cdb sample_sp (Caller 0) 255)))) = 255
   \<and> mx_sb_len (sih (snd (projr (sp_sense sample_sp (Caller 1) 0)))) = 0
   \<and> sp_cdb sample_sp (Caller 0) 256 = Inl (Exits ''large'' 131)
   \<and> sp_sense sample_sp (Caller 1) (- 1) = Inl (Exits ''large'' 153)"
proof -
  have in255: "0 \<le>s (255::cint) \<and> (255::cint) \<le>s 255"
    and in0: "0 \<le>s (0::cint) \<and> (0::cint) \<le>s 255"
    and out256: "\<not> (0 \<le>s (256::cint) \<and> (256::cint) \<le>s 255)"
    and outm1: "\<not> (0 \<le>s (- 1::cint) \<and> (- 1::cint) \<le>s 255)"
    by (simp_all add: word_sle_eq)
  show ?thesis
    using sp_cdb_sp_sense_length [of 255 sample_sp "Caller 0"] in255
      sp_cdb_sp_sense_length [of 0 sample_sp "Caller 1"] in0
      sp_cdb_sp_sense_length [of 256 sample_sp "Caller 0"] out256
      sp_cdb_sp_sense_length [of "- 1" sample_sp "Caller 1"] outm1
    by simp
qed

lemma c_div_usual:
  "c_div (c_div 999999 1000) 1000 = 0" "c_div 100800000 1000 = 100800"
  by (simp_all add: c_div_def signed_divide_int_def)

text \<open>
  C9. \<open>sp_zero\<close> returns for every session, and leaves every field of the header 0 or
  null except the interface tag \<open>'S'\<close>, the direction \<open>SG_DXFER_NONE\<close> (-1), the sense
  pointer at the session's own sense array with the usual length of 18 bytes, and the
  usual timeout of 28 hours in milliseconds; the handle and the sense array are as
  before. Applied to its own result it returns that result again, so that \<open>sp_zero\<close>
  twice in a row is \<open>sp_zero\<close> once.
\<close>

theorem sp_zero_idempotent:
  "sp_zero sp0 = Inr (sp0\<lparr>sih :=
       \<lparr> interface_id = 0x53, dxfer_direction = - 1, cmd_len = 0, mx_sb_len = 18,
         iovec_count = 0, dxfer_len = 0, dxferp = NULL, cmdp = NULL, sbp = Sp_sense,
         timeout = 28 * 60 * 60 * 1000, flags = 0, pack_id = 0, usr_ptr = NULL,
         status = 0, masked_status = 0, msg_status = 0, sb_len_wr = 0, host_status = 0,
         driver_status = 0, resid = 0, duration = 0, info = 0 \<rparr>\<rparr>)
   \<and> usual_sih =
       \<lparr> interface_id = 0x53, dxfer_direction = - 1, cmd_len = 0, mx_sb_len = 18,
         iovec_count = 0, dxfer_len = 0, dxferp = NULL, cmdp = NULL, sbp = Sp_sense,
         timeout = 28 * 60 * 60 * 1000, flags = 0, pack_id = 0, usr_ptr = NULL,
         status = 0, masked_status = 0, msg_status = 0, sb_len_wr = 0, host_status = 0,
         driver_status = 0, resid = 0, duration = 0, info = 0 \<rparr>
   \<and> SG_DXFER_NONE = - 1
   \<and> sp_zero sp0 = Inr (sp0\<lparr>sih := usual_sih\<rparr>)
   \<and> sp_zero (sp0\<lparr>sih := usual_sih\<rparr>) = Inr (sp0\<lparr>sih := usual_sih\<rparr>)
   \<and> (case sp_zero sp0 of Inl e \<Rightarrow> Inl e | Inr sp1 \<Rightarrow> sp_zero sp1) = sp_zero sp0
   \<and> fd (sp0\<lparr>sih := usual_sih\<rparr>) = fd sp0
   \<and> sense (sp0\<lparr>sih := usual_sih\<rparr>) = sense sp0
   \<and> usual_sih = zero_sih\<lparr>interface_id := 0x53, dxfer_direction := SG_DXFER_NONE,
        mx_sb_len := 18, sbp := Sp_sense, timeout := 28 * 60 * 60 * 1000\<rparr>"
  by (simp add: sp_zero_def sp_sense_def sp_late_def late_ms_def Let_def USUAL_SENSE_def
      USUAL_SECONDS_def SG_DXFER_NONE_def usual_sih_def zero_sih_def c_div_usual)

theorem sp_zero_idempotent_witness:
  "sp_zero dirty_sp = Inr
     \<lparr> sih = \<lparr> interface_id = 0x53, dxfer_direction = - 1, cmd_len = 0, mx_sb_len = 18,
         iovec_count = 0, dxfer_len = 0, dxferp = NULL, cmdp = NULL, sbp = Sp_sense,
         timeout = 100800000, flags = 0, pack_id = 0, usr_ptr = NULL,
         status = 0, masked_status = 0, msg_status = 0, sb_len_wr = 0, host_status = 0,
         driver_status = 0, resid = 0, duration = 0, info = 0 \<rparr>,
       fd = 7, sense = [0x70, 0x55] \<rparr>
   \<and> (case sp_zero dirty_sp of Inl e \<Rightarrow> Inl e | Inr sp1 \<Rightarrow> sp_zero sp1) = sp_zero dirty_sp"
proof -
  note t = sp_zero_idempotent [of dirty_sp]
  have a: "sp_zero dirty_sp = Inr (dirty_sp\<lparr>sih :=
       \<lparr> interface_id = 0x53, dxfer_direction = - 1, cmd_len = 0, mx_sb_len = 18,
         iovec_count = 0, dxfer_len = 0, dxferp = NULL, cmdp = NULL, sbp = Sp_sense,
         timeout = 28 * 60 * 60 * 1000, flags = 0, pack_id = 0, usr_ptr = NULL,
         status = 0, masked_status = 0, msg_status = 0, sb_len_wr = 0, host_status = 0,
         driver_status = 0, resid = 0, duration = 0, info = 0 \<rparr>\<rparr>)"
    by (rule t [THEN conjunct1])
  have b: "(case sp_zero dirty_sp of Inl e \<Rightarrow> Inl e | Inr sp1 \<Rightarrow> sp_zero sp1)
      = sp_zero dirty_sp"
    by (rule t [THEN conjunct2, THEN conjunct2, THEN conjunct2, THEN conjunct2,
          THEN conjunct2, THEN conjunct1])
  have c: "dirty_sp\<lparr>sih :=
       \<lparr> interface_id = 0x53, dxfer_direction = - 1, cmd_len = 0, mx_sb_len = 18,
         iovec_count = 0, dxfer_len = 0, dxferp = NULL, cmdp = NULL, sbp = Sp_sense,
         timeout = 28 * 60 * 60 * 1000, flags = 0, pack_id = 0, usr_ptr = NULL,
         status = 0, masked_status = 0, msg_status = 0, sb_len_wr = 0, host_status = 0,
         driver_status = 0, resid = 0, duration = 0, info = 0 \<rparr>\<rparr>
     = \<lparr> sih = \<lparr> interface_id = 0x53, dxfer_direction = - 1, cmd_len = 0, mx_sb_len = 18,
         iovec_count = 0, dxfer_len = 0, dxferp = NULL, cmdp = NULL, sbp = Sp_sense,
         timeout = 100800000, flags = 0, pack_id = 0, usr_ptr = NULL,
         status = 0, masked_status = 0, msg_status = 0, sb_len_wr = 0, host_status = 0,
         driver_status = 0, resid = 0, duration = 0, info = 0 \<rparr>,
       fd = 7, sense = [0x70, 0x55] \<rparr>"
    by (simp add: dirty_sp_def)
  from a b show ?thesis
    by (simp only: c)
qed

section \<open>The exit int of a transfer\<close>

lemma sp_read_speak:
  "sp_read K sp0 p mx r =
     sp_speak K (sp0\<lparr>sih := (sih sp0)\<lparr>dxfer_len := mx, dxferp := p,
                                       dxfer_direction := SG_DXFER_FROM_DEV\<rparr>\<rparr>) r"
  by (simp add: sp_read_def sp_data_def Let_def)

lemma sp_write_speak:
  "sp_write K sp0 p mx r =
     sp_speak K (sp0\<lparr>sih := (sih sp0)\<lparr>dxfer_len := mx, dxferp := p,
                                       dxfer_direction := SG_DXFER_TO_DEV\<rparr>\<rparr>) r"
  by (simp add: sp_write_def sp_data_def Let_def)

text \<open>The exit int of \<open>sp_speak\<close>, branch by branch.\<close>

lemma sp_speak_exit:
  "fst (sp_speak K sp0 r) =
     (if ioctl_ret r <s 0 then Some (SP_THRU K)
      else if resid (ioctl_sih r) <s 0 \<or> dxfer_len (sih sp0) <s resid (ioctl_sih r) then
        Some (SP_THRU K OR SP_DATA_THRU K)
      else if info (ioctl_sih r) AND SG_INFO_OK_MASK \<noteq> SG_INFO_OK then
        (if (ucast (sb_len_wr (ioctl_sih r)) :: cint) <s 0
            \<or> (ucast (mx_sb_len (sih sp0)) :: cint) <s ucast (sb_len_wr (ioctl_sih r)) then
           Some (SP_THRU K OR SP_SENSE_THRU K)
         else
           map_option
             (\<lambda>d. if 0 \<noteq> resid (ioctl_sih r) then (SP_THRU K OR d) OR SP_RESIDUE K
                  else SP_THRU K OR d)
             (int_from_sense K (deref r (sbp (sih sp0))) (ucast (sb_len_wr (ioctl_sih r)))))
      else Some (resid (ioctl_sih r)))"
  by (simp add: sp_speak_def Let_def split: option.split)

text \<open>
  C1. When the ioctl returns a nonnegative value, the residue read back is between 0
  and the requested length, and the info field masked with \<open>SG_INFO_OK_MASK\<close> is
  \<open>SG_INFO_OK\<close>, then \<open>sp_read\<close>, \<open>sp_write\<close> and \<open>sp_speak\<close> return the residue itself:
  0, or the positive count of bytes short. A marker \<open>SP_THRU\<close> that is negative, as the
  header's contract has it, is not set in that value.
\<close>

theorem transfer_clean_returns_residue:
  assumes "0 \<le>s ioctl_ret r"
    and "0 \<le>s resid (ioctl_sih r)" and "resid (ioctl_sih r) \<le>s mx"
    and "info (ioctl_sih r) AND SG_INFO_OK_MASK = SG_INFO_OK"
  shows "fst (sp_read K sp0 p mx r) = Some (resid (ioctl_sih r))
       \<and> fst (sp_write K sp0 p mx r) = Some (resid (ioctl_sih r))
       \<and> (dxfer_len (sih sp0) = mx \<longrightarrow> fst (sp_speak K sp0 r) = Some (resid (ioctl_sih r)))
       \<and> (resid (ioctl_sih r) \<noteq> 0 \<longrightarrow> 0 <s resid (ioctl_sih r))
       \<and> (SP_THRU K <s 0 \<longrightarrow> resid (ioctl_sih r) AND SP_THRU K \<noteq> SP_THRU K)"
proof -
  have ok: "\<not> ioctl_ret r <s 0" "\<not> resid (ioctl_sih r) <s 0" "\<not> mx <s resid (ioctl_sih r)"
    using assms(1-3) by (simp_all add: word_sless_alt word_sle_eq)
  have pos: "resid (ioctl_sih r) \<noteq> 0 \<longrightarrow> 0 <s resid (ioctl_sih r)"
    using assms(2) by (auto simp add: word_sless_eq)
  show ?thesis
    using ok assms(4) pos nonneg_lacks_negative_pattern [OF assms(2)]
    by (simp add: sp_read_speak sp_write_speak sp_speak_exit)
qed

theorem transfer_clean_returns_residue_witness:
  "fst (sp_read sample_bits sample_sp (Caller 0) 20 (reply_of 0 5 0 [])) = Some 5
   \<and> fst (sp_write sample_bits sample_sp (Caller 0) 20 (reply_of 0 5 0 [])) = Some 5
   \<and> (5 :: cint) AND SP_THRU sample_bits \<noteq> SP_THRU sample_bits"
proof -
  have h: "0 \<le>s ioctl_ret (reply_of 0 5 0 [])"
    "0 \<le>s resid (ioctl_sih (reply_of 0 5 0 []))"
    "resid (ioctl_sih (reply_of 0 5 0 [])) \<le>s 20"
    "info (ioctl_sih (reply_of 0 5 0 [])) AND SG_INFO_OK_MASK = SG_INFO_OK"
    by (simp_all add: reply_of_def SG_INFO_OK_MASK_def SG_INFO_OK_def word_sle_eq)
  show ?thesis
    using transfer_clean_returns_residue [OF h, of sample_bits sample_sp "Caller 0"]
    by (simp add: reply_of_def sample_bits_def word_sless_alt)
qed

text \<open>
  C2. When the ioctl itself returns a negative value, \<open>sp_read\<close>, \<open>sp_write\<close> and
  \<open>sp_speak\<close> return exactly \<open>SP_THRU\<close>, with nothing OR'd in. The decoder returns the
  same value for sense of at most 2 bytes, and a transfer that succeeds with residue 0,
  unclean status and sense the decoder cannot read returns the same value as the
  failed ioctl.
\<close>

theorem transfer_ioctl_failed_is_bare_marker:
  assumes "ioctl_ret r <s 0"
  shows "fst (sp_read K sp0 p mx r) = Some (SP_THRU K)
       \<and> fst (sp_write K sp0 p mx r) = Some (SP_THRU K)
       \<and> fst (sp_speak K sp0 r) = Some (SP_THRU K)
       \<and> (len \<le>s 2 \<longrightarrow> int_from_sense K chars len = Some (SP_THRU K))
       \<and> (0 \<le>s ioctl_ret r' \<and> resid (ioctl_sih r') = 0 \<and> 0 \<le>s dxfer_len (sih sp0)
            \<and> info (ioctl_sih r') AND SG_INFO_OK_MASK \<noteq> SG_INFO_OK
            \<and> sb_len_wr (ioctl_sih r') \<le> mx_sb_len (sih sp0)
            \<and> int_from_sense K (deref r' (sbp (sih sp0))) (ucast (sb_len_wr (ioctl_sih r')))
                = Some (SP_THRU K)
          \<longrightarrow> fst (sp_speak K sp0 r') = fst (sp_speak K sp0 r))"
proof -
  have short: "len \<le>s 2 \<longrightarrow> int_from_sense K chars len = Some (SP_THRU K)"
    by (simp add: int_from_sense_def int_from_sense_rd_def rd_return_def
        word_sless_alt word_sle_eq)
  have cmp: "\<not> (ucast (sb_len_wr (ioctl_sih r')) :: cint) <s 0"
    "sb_len_wr (ioctl_sih r') \<le> mx_sb_len (sih sp0) \<longrightarrow>
       \<not> (ucast (mx_sb_len (sih sp0)) :: cint) <s ucast (sb_len_wr (ioctl_sih r'))"
    by (simp_all add: word_sless_alt sint_ucast8 word_le_def)
  show ?thesis
    using assms short cmp
    by (simp add: sp_read_speak sp_write_speak sp_speak_exit word_sless_alt word_sle_eq)
qed

theorem transfer_ioctl_failed_is_bare_marker_witness:
  "fst (sp_read sample_bits sample_sp (Caller 0) 20 (reply_of (- 1) 0 0 []))
     = Some (SP_THRU sample_bits)
   \<and> int_from_sense sample_bits [0x70, 0x00] 2 = Some (SP_THRU sample_bits)
   \<and> fst (sp_speak sample_bits sample_sp (reply_of 0 0 1 [0x70, 0x00]))
     = fst (sp_speak sample_bits sample_sp (reply_of (- 1) 0 0 []))"
proof -
  have h: "ioctl_ret (reply_of (- 1) 0 0 []) <s 0"
    by (simp add: reply_of_def word_sless_alt)
  have short: "(2::cint) \<le>s 2"
    by (simp add: word_sle_eq)
  have h': "0 \<le>s ioctl_ret (reply_of 0 0 1 [0x70, 0x00])
      \<and> resid (ioctl_sih (reply_of 0 0 1 [0x70, 0x00])) = 0
      \<and> 0 \<le>s dxfer_len (sih sample_sp)
      \<and> info (ioctl_sih (reply_of 0 0 1 [0x70, 0x00])) AND SG_INFO_OK_MASK \<noteq> SG_INFO_OK
      \<and> sb_len_wr (ioctl_sih (reply_of 0 0 1 [0x70, 0x00])) \<le> mx_sb_len (sih sample_sp)
      \<and> int_from_sense sample_bits
           (deref (reply_of 0 0 1 [0x70, 0x00]) (sbp (sih sample_sp)))
           (ucast (sb_len_wr (ioctl_sih (reply_of 0 0 1 [0x70, 0x00]))))
          = Some (SP_THRU sample_bits)"
    by (simp add: reply_of_def sample_sp_def usual_sih_def zero_sih_def SG_INFO_OK_MASK_def
        SG_INFO_OK_def word_sle_eq int_from_sense_def int_from_sense_rd_def rd_return_def)
  show ?thesis
    using transfer_ioctl_failed_is_bare_marker [OF h, of sample_bits sample_sp "Caller 0" 20
        2 "[0x70, 0x00]" "reply_of 0 0 1 [0x70, 0x00]"] short h'
    by simp
qed

text \<open>
  C3. When the ioctl returns a nonnegative value: if the residue read back is negative
  or exceeds the requested length, the transfer returns \<open>SP_THRU | SP_DATA_THRU\<close>, not
  the residue; if the residue is in range, the status is unclean, and the count of
  sense bytes written is negative or exceeds the sense length configured before the
  call, it returns \<open>SP_THRU | SP_SENSE_THRU\<close>.
\<close>

theorem transfer_accounting_not_trusted:
  assumes "0 \<le>s ioctl_ret r"
    and "(se :: cint) = ucast (sb_len_wr (ioctl_sih r))"
    and "(sm :: cint) = ucast (mx_sb_len (sih sp0))"
  shows "(resid (ioctl_sih r) <s 0 \<or> mx <s resid (ioctl_sih r) \<longrightarrow>
            fst (sp_read K sp0 p mx r) = Some (SP_THRU K OR SP_DATA_THRU K)
          \<and> fst (sp_write K sp0 p mx r) = Some (SP_THRU K OR SP_DATA_THRU K)
          \<and> (dxfer_len (sih sp0) = mx \<longrightarrow>
               fst (sp_speak K sp0 r) = Some (SP_THRU K OR SP_DATA_THRU K)))
       \<and> (0 \<le>s resid (ioctl_sih r) \<and> resid (ioctl_sih r) \<le>s mx
            \<and> info (ioctl_sih r) AND SG_INFO_OK_MASK \<noteq> SG_INFO_OK
            \<and> (se <s 0 \<or> sm <s se) \<longrightarrow>
            fst (sp_read K sp0 p mx r) = Some (SP_THRU K OR SP_SENSE_THRU K)
          \<and> fst (sp_write K sp0 p mx r) = Some (SP_THRU K OR SP_SENSE_THRU K)
          \<and> (dxfer_len (sih sp0) = mx \<longrightarrow>
               fst (sp_speak K sp0 r) = Some (SP_THRU K OR SP_SENSE_THRU K)))"
proof -
  have ok: "\<not> ioctl_ret r <s 0"
    using assms(1) by (simp add: word_sless_alt word_sle_eq)
  have rng: "0 \<le>s resid (ioctl_sih r) \<and> resid (ioctl_sih r) \<le>s mx \<longrightarrow>
      \<not> (resid (ioctl_sih r) <s 0 \<or> mx <s resid (ioctl_sih r))"
    by (simp add: word_sless_alt word_sle_eq)
  show ?thesis
    using ok rng assms(2,3)
    by (auto simp add: sp_read_speak sp_write_speak sp_speak_exit)
qed

theorem transfer_accounting_not_trusted_witness:
  "fst (sp_read sample_bits sample_sp (Caller 0) 20 (reply_of 0 (- 1) 0 []))
     = Some (SP_THRU sample_bits OR SP_DATA_THRU sample_bits)
   \<and> fst (sp_write sample_bits sample_sp (Caller 0) 20 (reply_of 0 21 0 []))
     = Some (SP_THRU sample_bits OR SP_DATA_THRU sample_bits)
   \<and> fst (sp_read sample_bits sample_sp (Caller 0) 20 (reply_of 0 0 1 (replicate 19 0)))
     = Some (SP_THRU sample_bits OR SP_SENSE_THRU sample_bits)"
proof -
  have h: "0 \<le>s ioctl_ret (reply_of 0 (- 1) 0 [])" "0 \<le>s ioctl_ret (reply_of 0 21 0 [])"
    "0 \<le>s ioctl_ret (reply_of 0 0 1 (replicate 19 0))"
    by (simp_all add: reply_of_def word_sle_eq)
  have neg: "resid (ioctl_sih (reply_of 0 (- 1) 0 [])) <s 0"
    and big: "20 <s resid (ioctl_sih (reply_of 0 21 0 []))"
    and sns: "0 \<le>s resid (ioctl_sih (reply_of 0 0 1 (replicate 19 0)))
      \<and> resid (ioctl_sih (reply_of 0 0 1 (replicate 19 0))) \<le>s 20
      \<and> info (ioctl_sih (reply_of 0 0 1 (replicate 19 0))) AND SG_INFO_OK_MASK \<noteq> SG_INFO_OK
      \<and> (ucast (mx_sb_len (sih sample_sp)) :: cint)
           <s ucast (sb_len_wr (ioctl_sih (reply_of 0 0 1 (replicate 19 0))))"
    by (simp_all add: reply_of_def sample_sp_def usual_sih_def zero_sih_def
        SG_INFO_OK_MASK_def SG_INFO_OK_def word_sle_eq word_sless_alt)
  show ?thesis
    using transfer_accounting_not_trusted [OF h(1) refl refl, of 20 sample_bits sample_sp "Caller 0"]
      transfer_accounting_not_trusted [OF h(2) refl refl, of 20 sample_bits sample_sp "Caller 0"]
      transfer_accounting_not_trusted [OF h(3) refl refl, of 20 sample_bits sample_sp "Caller 0"]
      neg big sns
    by simp
qed

section \<open>What the sense decoder reads and returns\<close>

lemma int_of_char_mask: "int_of_char c AND 0xFF = ucast c"
proof -
  have h: "(0xFF :: cint) = mask 8" by (simp add: mask_eq_exp_minus_1)
  show ?thesis
    unfolding h int_of_char_def
  proof (rule bit_word_eqI)
    fix n assume "n < LENGTH(32)"
    show "bit ((scast c :: cint) AND mask 8) n \<longleftrightarrow> bit (ucast c :: cint) n"
    proof (cases "n < 8")
      case True
      then have "min 7 n = n" by simp
      with True \<open>n < LENGTH(32)\<close> show ?thesis by (simp add: bit_simps)
    next
      case False
      then have "\<not> bit c n" by (auto dest: bit_imp_le_length)
      with False show ?thesis by (simp add: bit_simps)
    qed
  qed
qed

lemma int_of_char_mask7: "int_of_char c AND 0x7F = ucast (c AND 0x7F)"
proof -
  have "(0x7F :: cint) = mask 7" "(0x7F :: cchar) = mask 7" by (simp_all add: mask_eq_exp_minus_1)
  then show ?thesis
    by (auto simp add: int_of_char_def bit_eq_iff bit_simps)
qed

lemma int_of_char_mask4: "int_of_char c AND 0x0F = ucast (c AND 0x0F)"
proof -
  have "(0x0F :: cint) = mask 4" "(0x0F :: cchar) = mask 4" by (simp_all add: mask_eq_exp_minus_1)
  then show ?thesis
    by (auto simp add: int_of_char_def bit_eq_iff bit_simps)
qed

lemma ucast8_eq_iff: "(ucast (a :: uchar) :: cint) = ucast b \<longleftrightarrow> a = b"
  by (simp add: word_uint_eq_iff uint_ucast_up)

lemma ucast8_numerals:
  "(ucast (a :: uchar) :: cint) = 0x70 \<longleftrightarrow> a = 0x70"
  "(ucast (a :: uchar) :: cint) = 0x71 \<longleftrightarrow> a = 0x71"
  "(ucast (a :: uchar) :: cint) = 0 \<longleftrightarrow> a = 0"
  using ucast8_eq_iff [of a "0x70"] ucast8_eq_iff [of a "0x71"] ucast8_eq_iff [of a 0]
  by simp_all

lemma sint_8_plus: "sint (8 + (ucast (c :: uchar) :: cint)) = 8 + uint c"
proof -
  have "uint c < 256" using uint_bounded [of c] by simp
  then show ?thesis
    using uint_ge_0 [of c] by (simp add: sint_word_ariths sint_ucast8 stb31)
qed

lemma sint_sense_clamp:
  "sint (sense_clamp c len) = (if c \<noteq> 0 then min (sint len) (8 + uint c) else sint len)"
  by (simp add: sense_clamp_def int_of_char_mask Let_def ucast8_numerals word_sless_alt sint_8_plus)

lemma rd_simps:
  "rd_bind (tr, None) f = (tr, None)"
  "rd_bind (tr, Some x) f = (tr @ fst (f x), snd (f x))"
  "rd_bind (rd_return x) f = f x"
  by (simp_all add: rd_bind_def rd_return_def split: prod.split)

lemma rd_peek_in: "i < length chars \<Longrightarrow> rd_peek chars i = ([i], Some (chars ! i))"
  by (simp add: rd_peek_def peek_def)

lemma rd_peek_out: "\<not> i < length chars \<Longrightarrow> rd_peek chars i = ([i], None)"
  by (simp add: rd_peek_def peek_def)

lemma int_from_sense_short:
  "\<not> 2 <s len \<Longrightarrow> int_from_sense_rd K chars len = ([], Some (SP_THRU K))"
  by (simp add: int_from_sense_rd_def rd_return_def)

lemma reads_below:
  "\<forall>i \<in> set (int_from_sense_reads K chars len). int i < sint len"
  unfolding int_from_sense_reads_def int_from_sense_rd_def
  apply (cases "2 < length chars"; cases "0 < length chars"; cases "7 < length chars"; 
         cases "0xC < length chars"; cases "0xD < length chars")
  apply (simp_all add: rd_peek_in rd_peek_out rd_simps Let_def word_sless_alt sint_sense_clamp rd_return_def)
  done

lemma none_iff_oob:
  "int_from_sense K chars len = None \<longleftrightarrow>
     (\<exists>i \<in> set (int_from_sense_reads K chars len). length chars \<le> i)"
  unfolding int_from_sense_reads_def int_from_sense_def int_from_sense_rd_def
  apply (cases "2 < length chars"; cases "0 < length chars"; cases "7 < length chars"; 
         cases "0xC < length chars"; cases "0xD < length chars")
  apply (simp_all add: rd_peek_in rd_peek_out rd_simps Let_def word_sless_alt sint_sense_clamp rd_return_def)
  done

lemma int_from_sense_total:
  assumes "sint len \<le> int (length chars)"
  shows "\<exists>d. int_from_sense K chars len = Some d"
proof -
  have "\<not> (\<exists>i \<in> set (int_from_sense_reads K chars len). length chars \<le> i)"
    using reads_below [of K chars len] assms by fastforce
  then show ?thesis by (simp flip: none_iff_oob)
qed

lemma eff_clamp:
  "effective_length chars (sint len) = (if 7 <s len then sint (sense_clamp (chars ! 7) len) else sint len)"
  by (simp add: effective_length_def sint_sense_clamp word_sless_alt uint_0_iff)

lemma int_from_sense_decoded:
  assumes "sint len \<le> int (length chars)" and "2 <s len"
  shows "int_from_sense_rd K chars len =
     (if chars ! 0 AND 0x7F = 0x70 \<or> chars ! 0 AND 0x7F = 0x71 then
        ([2, 0] @ (if 7 <s len then [7] else [])
           @ (if 0xC < effective_length chars (sint len) then [0xC] else [])
           @ (if 0xD < effective_length chars (sint len) then [0xD] else []),
         Some (SP_THRU K OR SP_SENSE K
           OR (if chars ! 0 AND 0x7F \<noteq> 0x70 then SP_DEFERRED K else 0)
           OR ucast (chars ! 2 AND 0x0F) * lsb (SP_SK K)
           OR (if 0xC < effective_length chars (sint len)
               then ucast (chars ! 0xC) else 0) * lsb (SP_ASC K)
           OR (if 0xD < effective_length chars (sint len)
               then ucast (chars ! 0xD) else 0) * lsb (SP_ASCQ K)))
      else ([2, 0], Some (SP_THRU K)))"
proof -
  from assms have l2: "2 < length chars"
    by (simp add: word_sless_alt)
  then have l0: "0 < length chars"
    by linarith
  note l = l2 l0
  have l7: "7 <s len \<Longrightarrow> 7 < length chars"
    using assms(1) by (simp add: word_sless_alt)
  have le: "effective_length chars (sint len) \<le> int (length chars)"
    using assms(1) by (auto simp add: effective_length_def)
  then have lC: "0xC < effective_length chars (sint len) \<Longrightarrow> 0xC < length chars"
    and lD: "0xD < effective_length chars (sint len) \<Longrightarrow> 0xD < length chars"
    by simp_all
  show ?thesis
    unfolding int_from_sense_rd_def
    using assms(2) l l7 lC lD
    by (cases "7 <s len"; cases "0xC < effective_length chars (sint len)";
        cases "0xD < effective_length chars (sint len)")
       (simp_all add: rd_peek_in rd_simps Let_def rd_return_def int_of_char_mask
          int_of_char_mask7 int_of_char_mask4 ucast8_numerals eff_clamp word_sless_alt ac_simps)
qed

lemma sense_example_decoded:
  "int_from_sense_rd K sense_example 14 =
     ([2, 0, 7, 0xC, 0xD],
      Some (SP_THRU K OR SP_SENSE K OR 5 * lsb (SP_SK K) OR 0x21 * lsb (SP_ASC K)
              OR 0x22 * lsb (SP_ASCQ K)))"
proof -
  have l: "sint (14 :: cint) \<le> int (length sense_example)" "2 <s (14 :: cint)"
    by (simp_all add: sense_example_def)
  have n: "effective_length sense_example (sint (14 :: cint)) = 14"
    by (simp add: effective_length_def sense_example_def)
  show ?thesis
    unfolding int_from_sense_decoded [OF l] n
    by (simp add: sense_example_def)
qed

lemma reads_which:
  "set (int_from_sense_reads K chars len) \<subseteq> {0, 2, 7, 0xC, 0xD}"
  unfolding int_from_sense_reads_def int_from_sense_rd_def
  apply (cases "2 < length chars"; cases "0 < length chars"; cases "7 < length chars"; 
         cases "0xC < length chars"; cases "0xD < length chars")
  apply (simp_all add: rd_peek_in rd_peek_out rd_simps Let_def rd_return_def)
  done

lemma reads_clamped:
  "\<forall>i \<in> set (int_from_sense_reads K chars len).
     i = 0xC \<or> i = 0xD \<longrightarrow> int i < effective_length chars (sint len)"
  unfolding int_from_sense_reads_def int_from_sense_rd_def
  apply (cases "2 < length chars"; cases "0 < length chars"; cases "7 < length chars"; 
         cases "0xC < length chars"; cases "0xD < length chars")
  apply (simp_all add: rd_peek_in rd_peek_out rd_simps Let_def word_sless_alt eff_clamp rd_return_def)
  done

text \<open>
  C10. For every buffer and every length argument, every index that \<open>int_from_sense\<close>
  dereferences is below the length: it reads nothing when the length is at most 2,
  reads only indices 0, 2, 7, \<open>0xC\<close> and \<open>0xD\<close>, and reads \<open>0xC\<close> and \<open>0xD\<close> only below the
  clamped length. With bounds-checked reads the decoder fails exactly when one of the
  indices it dereferences is outside the buffer, so it never fails on a buffer that
  holds at least as many bytes as the length argument says.
\<close>

theorem int_from_sense_reads_in_bounds:
  "(\<forall>i \<in> set (int_from_sense_reads K chars len). int i < sint len)
   \<and> (len \<le>s 2 \<longrightarrow> int_from_sense_reads K chars len = [])
   \<and> set (int_from_sense_reads K chars len) \<subseteq> {0, 2, 7, 0xC, 0xD}
   \<and> (\<forall>i \<in> set (int_from_sense_reads K chars len).
        i = 0xC \<or> i = 0xD \<longrightarrow> int i < effective_length chars (sint len))
   \<and> (int_from_sense K chars len = None \<longleftrightarrow>
        (\<exists>i \<in> set (int_from_sense_reads K chars len). length chars \<le> i))
   \<and> (sint len \<le> int (length chars) \<longrightarrow> (\<exists>d. int_from_sense K chars len = Some d))"
proof -
  have short: "len \<le>s 2 \<longrightarrow> int_from_sense_reads K chars len = []"
    by (simp add: int_from_sense_reads_def int_from_sense_short word_sless_alt word_sle_eq)
  show ?thesis
    using reads_below [of K chars len] short reads_which [of K chars len]
      reads_clamped [of K chars len] none_iff_oob [of K chars len]
      int_from_sense_total [of len chars K]
    by blast
qed

theorem int_from_sense_reads_in_bounds_witness:
  "int_from_sense_reads sample_bits sense_example 14 = [2, 0, 7, 0xC, 0xD]
   \<and> int_from_sense sample_bits sense_example 14 = Some 0x88052122"
proof -
  have l: "sint (14 :: cint) \<le> int (length sense_example)"
    by (simp add: sense_example_def)
  have t: "int_from_sense_reads sample_bits sense_example 14 = [2, 0, 7, 0xC, 0xD]"
    by (simp add: int_from_sense_reads_def sense_example_decoded)
  have v: "int_from_sense sample_bits sense_example 14 \<noteq> None \<longrightarrow>
      int_from_sense sample_bits sense_example 14 = Some 0x88052122"
    by (simp add: int_from_sense_def sense_example_decoded sample_bits_def lsb_def)
  show ?thesis
    using int_from_sense_reads_in_bounds [of sample_bits sense_example 14] l t v
    by auto
qed

section \<open>The fields of the result under the header's contract\<close>

lemma bit_field_sample:
  "bit_field 4 0x000F0000" "bit_field 8 0x0000FF00" "bit_field 8 0x000000FF"
proof -
  have "(0x000F0000 :: cint) = push_bit 16 (mask 4)" "(0x0000FF00 :: cint) = push_bit 8 (mask 8)"
    "(0x000000FF :: cint) = push_bit 0 (mask 8)"
    by (simp_all add: mask_eq_exp_minus_1 push_bit_eq_mult)
  then show "bit_field 4 0x000F0000" "bit_field 8 0x0000FF00" "bit_field 8 0x000000FF"
    unfolding bit_field_def by (fastforce)+
qed

lemma layout_sample: "layout_ok sample_bits"
  by (simp add: layout_ok_def sample_bits_def bit_field_sample word_sless_alt)

lemma lsb_shifted: "lsb (push_bit k x) = push_bit k (lsb x)"
  by (simp add: lsb_def push_bit_minus)

lemma lsb_mask48: "lsb (mask 4) = 1" "lsb (mask 8) = 1"
  by (simp_all add: lsb_def mask_eq_exp_minus_1)

lemma bit_fieldE:
  assumes "bit_field w m"
  obtains k where "k \<le> 32 - w" and "m = push_bit k (mask w)"
  using assms by (auto simp add: bit_field_def)

lemma times_lsb_field:
  assumes "m = push_bit k (mask w)" and "lsb (mask w) = 1"
  shows "v * lsb m = push_bit k v"
proof -
  have "lsb m = push_bit k (lsb (mask w))"
    by (simp only: assms(1) lsb_shifted)
  also have "\<dots> = 2 ^ k"
    by (simp only: assms(2) push_bit_of_1)
  finally show ?thesis
    by (simp only: push_bit_eq_mult)
qed

lemma field_holds:
  assumes "m = push_bit k (mask w)" and "lsb (mask w) = 1" and "v AND mask w = v"
  shows "(v * lsb m) AND m = v * lsb m"
proof -
  have "(v * lsb m) AND m = push_bit k v AND push_bit k (mask w)"
    using assms(1,2) by (simp add: times_lsb_field)
  also have "\<dots> = push_bit k (v AND mask w)"
    by simp
  also have "\<dots> = v * lsb m"
    using assms by (simp add: times_lsb_field)
  finally show ?thesis .
qed

lemma field_reads_back:
  assumes "m = push_bit k (mask w)" and "lsb (mask w) = 1" and "v AND mask w = v"
    and "k + w \<le> 32"
  shows "(v * lsb m) div lsb m = (v :: cint)"
proof -
  have "lsb m = push_bit k (lsb (mask w))"
    by (simp only: assms(1) lsb_shifted)
  also have "\<dots> = 2 ^ k"
    by (simp only: assms(2) push_bit_of_1)
  finally have "(v * lsb m) div lsb m = drop_bit k (push_bit k v)"
    by (simp only: drop_bit_eq_div push_bit_eq_mult)
  also have "\<dots> = take_bit (32 - k) v"
    by (rule bit_word_eqI) (auto simp add: bit_simps)
  also have "\<dots> = take_bit (32 - k) (take_bit w v)"
    using assms(3) by (simp add: take_bit_eq_mask)
  also have "\<dots> = take_bit w v"
  proof -
    from assms(4) have "min (32 - k) w = w" by simp
    then show ?thesis by simp
  qed
  also have "\<dots> = v"
    using assms(3) by (simp add: take_bit_eq_mask)
  finally show ?thesis .
qed

lemma sub_disjoint:
  assumes "x AND m = x" and "m AND n = 0"
  shows "x AND n = (0 :: cint)"
proof -
  have "x AND n = (x AND m) AND n" using assms(1) by simp
  also have "\<dots> = x AND (m AND n)" by (simp add: and.assoc)
  also have "\<dots> = 0" using assms(2) by simp
  finally show ?thesis .
qed

lemma ucast_nibble: "(ucast (c AND 0x0F :: uchar) :: cint) AND mask 4 = ucast (c AND 0x0F)"
proof -
  have "(0x0F :: cchar) = mask 4" by (simp add: mask_eq_exp_minus_1)
  then show ?thesis
    by (auto simp add: bit_eq_iff bit_simps)
qed

lemma ucast_byte: "(ucast (c :: uchar) :: cint) AND mask 8 = ucast c"
  by (rule bit_word_eqI) (auto simp add: bit_simps dest: bit_imp_le_length)

lemma layout_fields:
  assumes "layout_ok K"
  shows "bit_field 4 (SP_SK K)" "bit_field 8 (SP_ASC K)" "bit_field 8 (SP_ASCQ K)"
  using assms by (simp_all add: layout_ok_def)

lemma layout_disjoint:
  assumes "layout_ok K"
  shows "SP_THRU K AND SP_SENSE K = 0" "SP_THRU K AND SP_DEFERRED K = 0"
    "SP_THRU K AND SP_SK K = 0" "SP_THRU K AND SP_ASC K = 0" "SP_THRU K AND SP_ASCQ K = 0"
    "SP_SENSE K AND SP_DEFERRED K = 0" "SP_SENSE K AND SP_SK K = 0"
    "SP_SENSE K AND SP_ASC K = 0" "SP_SENSE K AND SP_ASCQ K = 0"
    "SP_DEFERRED K AND SP_SK K = 0" "SP_DEFERRED K AND SP_ASC K = 0"
    "SP_DEFERRED K AND SP_ASCQ K = 0"
    "SP_SK K AND SP_ASC K = 0" "SP_SK K AND SP_ASCQ K = 0" "SP_ASC K AND SP_ASCQ K = 0"
  using assms by (simp_all add: layout_ok_def)

lemma field_value:
  assumes "bit_field w m" and "lsb (mask w) = 1" and "v AND mask w = v" and "0 < w" "w \<le> 32"
  shows "(v * lsb m) AND m = v * lsb m" and "(v * lsb m) div lsb m = v"
proof -
  from assms(1) obtain k where k: "k \<le> 32 - w" "m = push_bit k (mask w)"
    by (rule bit_fieldE)
  from k(1) assms(5) have kw: "k + w \<le> 32" by simp
  show "(v * lsb m) AND m = v * lsb m"
    by (rule field_holds [OF k(2) assms(2,3)])
  show "(v * lsb m) div lsb m = v"
    by (rule field_reads_back [OF k(2) assms(2,3) kw])
qed

lemma or6_and:
  fixes t :: cint
  assumes "t AND n = t'" "s AND n = s'" "d AND n = d'" "x AND n = x'" "a AND n = a'"
    "q AND n = q'"
  shows "(t OR s OR d OR x OR a OR q) AND n = t' OR s' OR d' OR x' OR a' OR q'"
  using assms by (simp add: bit.conj_disj_distrib2)

lemma decoded_fields:
  assumes L: "layout_ok K"
    and sk: "sk AND mask 4 = sk" and a: "a AND mask 8 = a" and q: "q AND mask 8 = q"
    and d: "d = 0 \<or> d = SP_DEFERRED K"
    and e: "e = SP_THRU K OR SP_SENSE K OR d OR sk * lsb (SP_SK K)
                OR a * lsb (SP_ASC K) OR q * lsb (SP_ASCQ K)"
  shows "e AND SP_THRU K = SP_THRU K" and "e AND SP_SENSE K = SP_SENSE K"
    and "e AND SP_DEFERRED K = d"
    and "e AND SP_SK K = sk * lsb (SP_SK K)" and "(e AND SP_SK K) div lsb (SP_SK K) = sk"
    and "e AND SP_ASC K = a * lsb (SP_ASC K)" and "(e AND SP_ASC K) div lsb (SP_ASC K) = a"
    and "e AND SP_ASCQ K = q * lsb (SP_ASCQ K)" and "(e AND SP_ASCQ K) div lsb (SP_ASCQ K) = q"
proof -
  define X where "X = sk * lsb (SP_SK K)"
  define A where "A = a * lsb (SP_ASC K)"
  define Q where "Q = q * lsb (SP_ASCQ K)"
  note F = layout_fields [OF L]
  note dis = layout_disjoint [OF L]
  have X: "X AND SP_SK K = X" and Xr: "X div lsb (SP_SK K) = sk"
    unfolding X_def by (rule field_value [OF F(1) lsb_mask48(1) sk]; simp)+
  have A: "A AND SP_ASC K = A" and Ar: "A div lsb (SP_ASC K) = a"
    unfolding A_def by (rule field_value [OF F(2) lsb_mask48(2) a]; simp)+
  have Q: "Q AND SP_ASCQ K = Q" and Qr: "Q div lsb (SP_ASCQ K) = q"
    unfolding Q_def by (rule field_value [OF F(3) lsb_mask48(2) q]; simp)+
  have c: "\<And>x y :: cint. x AND y = 0 \<Longrightarrow> y AND x = 0"
    by (simp add: and.commute)
  have Xd: "X AND SP_THRU K = 0" "X AND SP_SENSE K = 0" "X AND SP_DEFERRED K = 0"
    "X AND SP_ASC K = 0" "X AND SP_ASCQ K = 0"
    by (rule sub_disjoint [OF X c [OF dis(3)]], rule sub_disjoint [OF X c [OF dis(7)]],
        rule sub_disjoint [OF X c [OF dis(10)]], rule sub_disjoint [OF X dis(13)],
        rule sub_disjoint [OF X dis(14)])
  have Ad: "A AND SP_THRU K = 0" "A AND SP_SENSE K = 0" "A AND SP_DEFERRED K = 0"
    "A AND SP_SK K = 0" "A AND SP_ASCQ K = 0"
    by (rule sub_disjoint [OF A c [OF dis(4)]], rule sub_disjoint [OF A c [OF dis(8)]],
        rule sub_disjoint [OF A c [OF dis(11)]], rule sub_disjoint [OF A c [OF dis(13)]],
        rule sub_disjoint [OF A dis(15)])
  have Qd: "Q AND SP_THRU K = 0" "Q AND SP_SENSE K = 0" "Q AND SP_DEFERRED K = 0"
    "Q AND SP_SK K = 0" "Q AND SP_ASC K = 0"
    by (rule sub_disjoint [OF Q c [OF dis(5)]], rule sub_disjoint [OF Q c [OF dis(9)]],
        rule sub_disjoint [OF Q c [OF dis(12)]], rule sub_disjoint [OF Q c [OF dis(14)]],
        rule sub_disjoint [OF Q c [OF dis(15)]])
  have dd: "d AND SP_THRU K = 0" "d AND SP_SENSE K = 0" "d AND SP_DEFERRED K = d"
    "d AND SP_SK K = 0" "d AND SP_ASC K = 0" "d AND SP_ASCQ K = 0"
    using d c [OF dis(2)] c [OF dis(6)] dis(10) dis(11) dis(12) by auto
  have e': "e = SP_THRU K OR SP_SENSE K OR d OR X OR A OR Q"
    by (simp only: e X_def A_def Q_def)
  have "e AND SP_THRU K = SP_THRU K OR 0 OR 0 OR 0 OR 0 OR 0"
    unfolding e' by (rule or6_and) (simp_all add: c [OF dis(1)] dd Xd Ad Qd)
  then show "e AND SP_THRU K = SP_THRU K" by simp
  have "e AND SP_SENSE K = 0 OR SP_SENSE K OR 0 OR 0 OR 0 OR 0"
    unfolding e' by (rule or6_and) (simp_all add: dis(1) dd Xd Ad Qd)
  then show "e AND SP_SENSE K = SP_SENSE K" by simp
  have "e AND SP_DEFERRED K = 0 OR 0 OR d OR 0 OR 0 OR 0"
    unfolding e' by (rule or6_and) (simp_all add: dis(2) dis(6) dd Xd Ad Qd)
  then show "e AND SP_DEFERRED K = d" by simp
  have "e AND SP_SK K = 0 OR 0 OR 0 OR X OR 0 OR 0"
    unfolding e' by (rule or6_and) (simp_all add: dis(3) dis(7) dd X Ad Qd)
  then have eX: "e AND SP_SK K = X" by simp
  have "e AND SP_ASC K = 0 OR 0 OR 0 OR 0 OR A OR 0"
    unfolding e' by (rule or6_and) (simp_all add: dis(4) dis(8) dd Xd A Qd)
  then have eA: "e AND SP_ASC K = A" by simp
  have "e AND SP_ASCQ K = 0 OR 0 OR 0 OR 0 OR 0 OR Q"
    unfolding e' by (rule or6_and) (simp_all add: dis(5) dis(9) dd Xd Ad Q)
  then have eQ: "e AND SP_ASCQ K = Q" by simp
  show "e AND SP_SK K = sk * lsb (SP_SK K)" using eX by (simp only: X_def)
  show "e AND SP_ASC K = a * lsb (SP_ASC K)" using eA by (simp only: A_def)
  show "e AND SP_ASCQ K = q * lsb (SP_ASCQ K)" using eQ by (simp only: Q_def)
  show "(e AND SP_SK K) div lsb (SP_SK K) = sk" by (simp only: eX Xr)
  show "(e AND SP_ASC K) div lsb (SP_ASC K) = a" by (simp only: eA Ar)
  show "(e AND SP_ASCQ K) div lsb (SP_ASCQ K) = q" by (simp only: eQ Qr)
qed

lemma sample_decoded:
  "int_from_sense sample_bits (sense_example @ replicate n 0) 14 = Some 0x88052122"
proof -
  have l: "sint (14 :: cint) \<le> int (length (sense_example @ replicate n 0))" "2 <s (14 :: cint)"
    by (simp_all add: sense_example_def)
  have n: "effective_length (sense_example @ replicate n 0) (sint (14 :: cint)) = 14"
    by (simp add: effective_length_def sense_example_def)
  show ?thesis
    unfolding int_from_sense_def int_from_sense_decoded [OF l] n
    by (simp add: sense_example_def sample_bits_def lsb_def)
qed

text \<open>
  C5. On a sense buffer that holds at least \<open>len\<close> bytes: if \<open>len\<close> is at most 2, or
  the low 7 bits of byte 0 are neither \<open>0x70\<close> nor \<open>0x71\<close>, \<open>int_from_sense\<close> returns
  exactly \<open>SP_THRU\<close>. Otherwise it returns \<open>SP_THRU\<close> OR'd with \<open>SP_SENSE\<close>, with
  \<open>SP_DEFERRED\<close> exactly when the response code is not \<open>0x70\<close>, with the low 4 bits of
  byte 2 times the least significant bit of \<open>SP_SK\<close>, and with an ASC and an ASCQ
  part. Under the header's contract the bare marker has none of the sense bits, and in
  the decoded value \<open>SP_SENSE\<close> is set, \<open>SP_DEFERRED\<close> is set exactly when the response
  code is not \<open>0x70\<close>, and the Sense Key field reads back as the low 4 bits of byte 2.
\<close>

theorem int_from_sense_flags_and_key:
  assumes "sint len \<le> int (length chars)"
    and "rc = chars ! 0 AND 0x7F"
    and "sk = ucast (chars ! 2 AND 0x0F)"
  shows "(len \<le>s 2 \<or> (rc \<noteq> 0x70 \<and> rc \<noteq> 0x71) \<longrightarrow>
            int_from_sense K chars len = Some (SP_THRU K))
       \<and> (2 <s len \<and> (rc = 0x70 \<or> rc = 0x71) \<longrightarrow>
            (\<exists>a q. a AND mask 8 = a \<and> q AND mask 8 = q
               \<and> int_from_sense K chars len
                   = Some (SP_THRU K OR SP_SENSE K
                       OR (if rc \<noteq> 0x70 then SP_DEFERRED K else 0)
                       OR sk * lsb (SP_SK K) OR a * lsb (SP_ASC K) OR q * lsb (SP_ASCQ K))))
       \<and> (layout_ok K \<longrightarrow>
            SP_THRU K AND (SP_SENSE K OR SP_DEFERRED K OR SP_SK K OR SP_ASC K OR SP_ASCQ K) = 0
          \<and> (2 <s len \<and> (rc = 0x70 \<or> rc = 0x71) \<longrightarrow>
               (\<exists>e. int_from_sense K chars len = Some e
                  \<and> e AND SP_THRU K = SP_THRU K
                  \<and> e AND SP_SENSE K = SP_SENSE K
                  \<and> (e AND SP_DEFERRED K = SP_DEFERRED K \<longleftrightarrow> rc \<noteq> 0x70)
                  \<and> (e AND SP_DEFERRED K = 0 \<longleftrightarrow> rc = 0x70)
                  \<and> e AND SP_SK K = sk * lsb (SP_SK K)
                  \<and> (e AND SP_SK K) div lsb (SP_SK K) = sk)))"
proof -
  let ?n = "effective_length chars (sint len)"
  let ?a = "if 0xC < ?n then ucast (chars ! 0xC) else (0 :: cint)"
  let ?q = "if 0xD < ?n then ucast (chars ! 0xD) else (0 :: cint)"
  let ?d = "if rc \<noteq> 0x70 then SP_DEFERRED K else 0"
  let ?e = "SP_THRU K OR SP_SENSE K OR ?d OR sk * lsb (SP_SK K)
              OR ?a * lsb (SP_ASC K) OR ?q * lsb (SP_ASCQ K)"
  have bare: "len \<le>s 2 \<or> (rc \<noteq> 0x70 \<and> rc \<noteq> 0x71) \<longrightarrow>
            int_from_sense K chars len = Some (SP_THRU K)"
  proof (cases "2 <s len")
    case True
    then show ?thesis
      using int_from_sense_decoded [OF assms(1) True, of K] assms(2)
      by (auto simp add: int_from_sense_def word_sless_alt word_sle_eq)
  next
    case False
    then show ?thesis
      by (simp add: int_from_sense_def int_from_sense_short)
  qed
  have am: "?a AND mask 8 = ?a" and qm: "?q AND mask 8 = ?q"
    by (simp_all add: ucast_byte)
  have skm: "sk AND mask 4 = sk"
    by (simp add: assms(3) ucast_nibble)
  have dec: "2 <s len \<and> (rc = 0x70 \<or> rc = 0x71) \<longrightarrow> int_from_sense K chars len = Some ?e"
  proof
    assume h: "2 <s len \<and> (rc = 0x70 \<or> rc = 0x71)"
    then show "int_from_sense K chars len = Some ?e"
      using int_from_sense_decoded [OF assms(1), of K] assms(2,3)
      by (auto simp add: int_from_sense_def)
  qed
  then have form: "2 <s len \<and> (rc = 0x70 \<or> rc = 0x71) \<longrightarrow>
            (\<exists>a q. a AND mask 8 = a \<and> q AND mask 8 = q
               \<and> int_from_sense K chars len
                   = Some (SP_THRU K OR SP_SENSE K OR ?d
                       OR sk * lsb (SP_SK K) OR a * lsb (SP_ASC K) OR q * lsb (SP_ASCQ K)))"
    using am qm by blast
  have lay: "layout_ok K \<longrightarrow>
            SP_THRU K AND (SP_SENSE K OR SP_DEFERRED K OR SP_SK K OR SP_ASC K OR SP_ASCQ K) = 0
          \<and> (2 <s len \<and> (rc = 0x70 \<or> rc = 0x71) \<longrightarrow>
               (\<exists>e. int_from_sense K chars len = Some e
                  \<and> e AND SP_THRU K = SP_THRU K
                  \<and> e AND SP_SENSE K = SP_SENSE K
                  \<and> (e AND SP_DEFERRED K = SP_DEFERRED K \<longleftrightarrow> rc \<noteq> 0x70)
                  \<and> (e AND SP_DEFERRED K = 0 \<longleftrightarrow> rc = 0x70)
                  \<and> e AND SP_SK K = sk * lsb (SP_SK K)
                  \<and> (e AND SP_SK K) div lsb (SP_SK K) = sk))"
  proof
    assume L: "layout_ok K"
    then have nz: "SP_DEFERRED K \<noteq> 0"
      by (simp add: layout_ok_def)
    have d: "?d = 0 \<or> ?d = SP_DEFERRED K" by simp
    note fs = decoded_fields [OF L skm am qm d refl]
    have "SP_THRU K AND (SP_SENSE K OR SP_DEFERRED K OR SP_SK K OR SP_ASC K OR SP_ASCQ K) = 0"
      using layout_disjoint [OF L] by (simp add: bit.conj_disj_distrib)
    moreover have "2 <s len \<and> (rc = 0x70 \<or> rc = 0x71) \<longrightarrow>
               (\<exists>e. int_from_sense K chars len = Some e
                  \<and> e AND SP_THRU K = SP_THRU K
                  \<and> e AND SP_SENSE K = SP_SENSE K
                  \<and> (e AND SP_DEFERRED K = SP_DEFERRED K \<longleftrightarrow> rc \<noteq> 0x70)
                  \<and> (e AND SP_DEFERRED K = 0 \<longleftrightarrow> rc = 0x70)
                  \<and> e AND SP_SK K = sk * lsb (SP_SK K)
                  \<and> (e AND SP_SK K) div lsb (SP_SK K) = sk)"
    proof
      assume h: "2 <s len \<and> (rc = 0x70 \<or> rc = 0x71)"
      with dec have "int_from_sense K chars len = Some ?e" by blast
      moreover have "(?e AND SP_DEFERRED K = SP_DEFERRED K \<longleftrightarrow> rc \<noteq> 0x70)"
        "(?e AND SP_DEFERRED K = 0 \<longleftrightarrow> rc = 0x70)"
        using fs(3) nz by (auto simp only: split: if_splits)
      ultimately show "\<exists>e. int_from_sense K chars len = Some e
                  \<and> e AND SP_THRU K = SP_THRU K
                  \<and> e AND SP_SENSE K = SP_SENSE K
                  \<and> (e AND SP_DEFERRED K = SP_DEFERRED K \<longleftrightarrow> rc \<noteq> 0x70)
                  \<and> (e AND SP_DEFERRED K = 0 \<longleftrightarrow> rc = 0x70)
                  \<and> e AND SP_SK K = sk * lsb (SP_SK K)
                  \<and> (e AND SP_SK K) div lsb (SP_SK K) = sk"
        using fs(1,2,4,5) by blast
    qed
    ultimately show "SP_THRU K AND (SP_SENSE K OR SP_DEFERRED K OR SP_SK K OR SP_ASC K OR SP_ASCQ K) = 0
          \<and> (2 <s len \<and> (rc = 0x70 \<or> rc = 0x71) \<longrightarrow>
               (\<exists>e. int_from_sense K chars len = Some e
                  \<and> e AND SP_THRU K = SP_THRU K
                  \<and> e AND SP_SENSE K = SP_SENSE K
                  \<and> (e AND SP_DEFERRED K = SP_DEFERRED K \<longleftrightarrow> rc \<noteq> 0x70)
                  \<and> (e AND SP_DEFERRED K = 0 \<longleftrightarrow> rc = 0x70)
                  \<and> e AND SP_SK K = sk * lsb (SP_SK K)
                  \<and> (e AND SP_SK K) div lsb (SP_SK K) = sk))"
      by blast
  qed
  from bare form lay show ?thesis by blast
qed

theorem int_from_sense_flags_and_key_witness:
  "int_from_sense sample_bits [0x72, 0x00, 0x03] 3 = Some (SP_THRU sample_bits)
   \<and> (\<exists>e. int_from_sense sample_bits [0xF1, 0x00, 0x03] 3 = Some e
        \<and> e AND SP_SENSE sample_bits = SP_SENSE sample_bits
        \<and> e AND SP_DEFERRED sample_bits = SP_DEFERRED sample_bits
        \<and> (e AND SP_SK sample_bits) div lsb (SP_SK sample_bits) = 3)"
proof -
  have l: "sint (3 :: cint) \<le> int (length [0xF1, 0x00, 0x03 :: cchar])"
    "sint (3 :: cint) \<le> int (length [0x72, 0x00, 0x03 :: cchar])"
    by simp_all
  have rc: "[0xF1, 0x00, 0x03 :: cchar] ! 0 AND 0x7F = 0x71"
    "[0x72, 0x00, 0x03 :: cchar] ! 0 AND 0x7F = 0x72"
    by simp_all
  have sk: "(ucast ([0xF1, 0x00, 0x03 :: cchar] ! 2 AND 0x0F) :: cint) = 3"
    "(ucast ([0x72, 0x00, 0x03 :: cchar] ! 2 AND 0x0F) :: cint) = 3"
    by simp_all
  have c: "2 <s (3 :: cint)" "(0x72 :: cchar) \<noteq> 0x70 \<and> (0x72 :: cchar) \<noteq> 0x71"
    "(0x71 :: cchar) \<noteq> 0x70"
    by simp_all
  have L: "layout_ok sample_bits"
    by (rule layout_sample)
  show ?thesis
    using int_from_sense_flags_and_key [OF l(1) rc(1) [symmetric] sk(1) [symmetric], of sample_bits]
      int_from_sense_flags_and_key [OF l(2) rc(2) [symmetric] sk(2) [symmetric], of sample_bits]
      c L
    by simp blast
qed

text \<open>
  C6. On intelligible sense (more than 2 valid bytes, response code \<open>0x70\<close> or \<open>0x71\<close>)
  in a buffer that holds the valid bytes: the length the decoder goes on with is the
  effective length of the specification, that is the minimum of the valid length and
  8 plus byte 7 when the valid length exceeds 7 and byte 7 is not 0, and the valid
  length otherwise. Byte \<open>0xC\<close> is OR'd into the ASC field if and only if that length
  exceeds \<open>0xC\<close>, byte \<open>0xD\<close> into the ASCQ field if and only if it exceeds \<open>0xD\<close>; a
  field that is not filled stays 0. The 14 bytes of the example decode to \<open>SP_SENSE\<close>
  set, \<open>SP_DEFERRED\<close> not set, Sense Key 5, ASC \<open>0x21\<close> and ASCQ \<open>0x22\<close>.
\<close>

theorem int_from_sense_clamp_asc_ascq:
  assumes "sint len \<le> int (length chars)" and "2 <s len"
    and "rc = chars ! 0 AND 0x7F" and "rc = 0x70 \<or> rc = 0x71"
    and "n = effective_length chars (sint len)"
    and "base = SP_THRU K OR SP_SENSE K OR (if rc \<noteq> 0x70 then SP_DEFERRED K else 0)
                  OR ucast (chars ! 2 AND 0x0F) * lsb (SP_SK K)"
    and "asc = (if 0xC < n then ucast (chars ! 0xC) else 0)"
    and "ascq = (if 0xD < n then ucast (chars ! 0xD) else 0)"
  shows "(7 <s len \<longrightarrow> n = sint (sense_clamp (chars ! 7) len))
       \<and> (\<not> 7 <s len \<longrightarrow> n = sint len)
       \<and> (7 < sint len \<and> chars ! 7 \<noteq> 0 \<longrightarrow> n = min (sint len) (8 + uint (chars ! 7)))
       \<and> int_from_sense K chars len
           = Some (base OR asc * lsb (SP_ASC K) OR ascq * lsb (SP_ASCQ K))
       \<and> (layout_ok K \<longrightarrow>
            (\<exists>e. int_from_sense K chars len = Some e
               \<and> (e AND SP_ASC K) div lsb (SP_ASC K) = asc
               \<and> (e AND SP_ASCQ K) div lsb (SP_ASCQ K) = ascq))
       \<and> int_from_sense K sense_example 14
           = Some (SP_THRU K OR SP_SENSE K OR 5 * lsb (SP_SK K) OR 0x21 * lsb (SP_ASC K)
                     OR 0x22 * lsb (SP_ASCQ K))
       \<and> (layout_ok K \<longrightarrow>
            (\<exists>e. int_from_sense K sense_example 14 = Some e
               \<and> e AND SP_SENSE K = SP_SENSE K \<and> e AND SP_DEFERRED K = 0
               \<and> (e AND SP_SK K) div lsb (SP_SK K) = 5
               \<and> (e AND SP_ASC K) div lsb (SP_ASC K) = 0x21
               \<and> (e AND SP_ASCQ K) div lsb (SP_ASCQ K) = 0x22))"
proof -
  let ?d = "if rc \<noteq> 0x70 then SP_DEFERRED K else 0"
  have c1: "7 <s len \<longrightarrow> n = sint (sense_clamp (chars ! 7) len)"
    and c2: "\<not> 7 <s len \<longrightarrow> n = sint len"
    by (simp_all add: assms(5) eff_clamp)
  have c3: "7 < sint len \<and> chars ! 7 \<noteq> 0 \<longrightarrow> n = min (sint len) (8 + uint (chars ! 7))"
    by (simp add: assms(5) effective_length_def uint_0_iff)
  have dec: "int_from_sense K chars len
           = Some (base OR asc * lsb (SP_ASC K) OR ascq * lsb (SP_ASCQ K))"
    using int_from_sense_decoded [OF assms(1,2), of K] assms(3-8)
    by (auto simp add: int_from_sense_def or.assoc)
  have lay: "layout_ok K \<longrightarrow>
            (\<exists>e. int_from_sense K chars len = Some e
               \<and> (e AND SP_ASC K) div lsb (SP_ASC K) = asc
               \<and> (e AND SP_ASCQ K) div lsb (SP_ASCQ K) = ascq)"
  proof
    assume L: "layout_ok K"
    have m: "ucast (chars ! 2 AND 0x0F) AND mask 4 = (ucast (chars ! 2 AND 0x0F) :: cint)"
      "asc AND mask 8 = asc" "ascq AND mask 8 = ascq"
      by (simp_all add: assms(7,8) ucast_nibble ucast_byte)
    have d: "?d = 0 \<or> ?d = SP_DEFERRED K" by simp
    have e: "base OR asc * lsb (SP_ASC K) OR ascq * lsb (SP_ASCQ K)
        = SP_THRU K OR SP_SENSE K OR ?d OR ucast (chars ! 2 AND 0x0F) * lsb (SP_SK K)
            OR asc * lsb (SP_ASC K) OR ascq * lsb (SP_ASCQ K)"
      by (simp only: assms(6) or.assoc)
    note fs = decoded_fields [OF L m d e]
    from dec fs(7,9) show "\<exists>e. int_from_sense K chars len = Some e
               \<and> (e AND SP_ASC K) div lsb (SP_ASC K) = asc
               \<and> (e AND SP_ASCQ K) div lsb (SP_ASCQ K) = ascq"
      by blast
  qed
  have ex: "int_from_sense K sense_example 14
           = Some (SP_THRU K OR SP_SENSE K OR 5 * lsb (SP_SK K) OR 0x21 * lsb (SP_ASC K)
                     OR 0x22 * lsb (SP_ASCQ K))"
    by (simp add: int_from_sense_def sense_example_decoded)
  have exl: "layout_ok K \<longrightarrow>
            (\<exists>e. int_from_sense K sense_example 14 = Some e
               \<and> e AND SP_SENSE K = SP_SENSE K \<and> e AND SP_DEFERRED K = 0
               \<and> (e AND SP_SK K) div lsb (SP_SK K) = 5
               \<and> (e AND SP_ASC K) div lsb (SP_ASC K) = 0x21
               \<and> (e AND SP_ASCQ K) div lsb (SP_ASCQ K) = 0x22)"
  proof
    assume L: "layout_ok K"
    have m: "(5 :: cint) AND mask 4 = 5" "(0x21 :: cint) AND mask 8 = 0x21"
      "(0x22 :: cint) AND mask 8 = 0x22"
      by (simp_all add: mask_eq_exp_minus_1)
    have e: "SP_THRU K OR SP_SENSE K OR 5 * lsb (SP_SK K) OR 0x21 * lsb (SP_ASC K)
                     OR 0x22 * lsb (SP_ASCQ K)
        = SP_THRU K OR SP_SENSE K OR 0 OR 5 * lsb (SP_SK K)
            OR 0x21 * lsb (SP_ASC K) OR 0x22 * lsb (SP_ASCQ K)"
      by simp
    have d: "(0 :: cint) = 0 \<or> (0 :: cint) = SP_DEFERRED K" by simp
    note fs = decoded_fields [OF L m d e]
    from ex fs(2,3,5,7,9) show "\<exists>e. int_from_sense K sense_example 14 = Some e
               \<and> e AND SP_SENSE K = SP_SENSE K \<and> e AND SP_DEFERRED K = 0
               \<and> (e AND SP_SK K) div lsb (SP_SK K) = 5
               \<and> (e AND SP_ASC K) div lsb (SP_ASC K) = 0x21
               \<and> (e AND SP_ASCQ K) div lsb (SP_ASCQ K) = 0x22"
      by blast
  qed
  from c1 c2 c3 dec lay ex exl show ?thesis by blast
qed

theorem int_from_sense_clamp_asc_ascq_witness:
  "int_from_sense sample_bits [0x70, 0, 2, 0, 0, 0, 0, 1, 0, 0, 0, 0, 0x21, 0x22] 14
     = Some 0x88020000
   \<and> int_from_sense sample_bits sense_example 14 = Some 0x88052122
   \<and> (0x88052122 AND SP_ASC sample_bits) div lsb (SP_ASC sample_bits) = 0x21
   \<and> (0x88052122 AND SP_ASCQ sample_bits) div lsb (SP_ASCQ sample_bits) = 0x22"
proof -
  let ?chars = "[0x70, 0, 2, 0, 0, 0, 0, 1, 0, 0, 0, 0, 0x21, 0x22] :: cchar list"
  have l: "sint (14 :: cint) \<le> int (length ?chars)" "2 <s (14 :: cint)"
    by simp_all
  have rc: "?chars ! 0 AND 0x7F = 0x70"
    by simp
  have rcok: "(0x70 :: cchar) = 0x70 \<or> (0x70 :: cchar) = 0x71"
    by simp
  have n: "effective_length ?chars (sint (14 :: cint)) = 9"
    by (simp add: effective_length_def)
  have a: "(if 0xC < (9 :: int) then ucast (?chars ! 0xC) else 0) = (0 :: cint)"
    "(if 0xD < (9 :: int) then ucast (?chars ! 0xD) else 0) = (0 :: cint)"
    by simp_all
  have L: "layout_ok sample_bits"
    by (rule layout_sample)
  have v: "SP_THRU sample_bits OR SP_SENSE sample_bits OR 5 * lsb (SP_SK sample_bits)
             OR 0x21 * lsb (SP_ASC sample_bits) OR 0x22 * lsb (SP_ASCQ sample_bits)
           = 0x88052122"
    "SP_THRU sample_bits OR SP_SENSE sample_bits OR 2 * lsb (SP_SK sample_bits) = 0x88020000"
    by (simp_all add: sample_bits_def lsb_def)
  show ?thesis
    using int_from_sense_clamp_asc_ascq [OF l rc [symmetric] rcok n [symmetric] refl
        a(1) [symmetric] a(2) [symmetric], of sample_bits] L
    by (auto simp add: v)
qed

section \<open>The transfer on unclean status\<close>

text \<open>
  C4. When the ioctl returns a nonnegative value, the residue is between 0 and the
  requested length, the status is unclean, and the count of sense bytes written is
  between 0 and the sense length configured before the call, the transfer returns
  \<open>SP_THRU\<close> OR'd with what \<open>int_from_sense\<close> returns on the sense buffer and that count,
  OR'd with \<open>SP_RESIDUE\<close> if the residue is not 0 and with nothing more if it is 0.
  When the sense object holds at least the bytes counted, the decoder does return.
\<close>

theorem transfer_unclean_decodes_sense:
  assumes "0 \<le>s ioctl_ret r"
    and "0 \<le>s resid (ioctl_sih r)" and "resid (ioctl_sih r) \<le>s mx"
    and "info (ioctl_sih r) AND SG_INFO_OK_MASK \<noteq> SG_INFO_OK"
    and "(se :: cint) = ucast (sb_len_wr (ioctl_sih r))"
    and "(sm :: cint) = ucast (mx_sb_len (sih sp0))"
    and "0 \<le>s se" and "se \<le>s sm"
    and "sense_chars = deref r (sbp (sih sp0))"
    and "flag = (if resid (ioctl_sih r) \<noteq> 0 then SP_RESIDUE K else 0)"
  shows "fst (sp_read K sp0 p mx r)
           = map_option (\<lambda>d. SP_THRU K OR d OR flag) (int_from_sense K sense_chars se)
       \<and> fst (sp_write K sp0 p mx r)
           = map_option (\<lambda>d. SP_THRU K OR d OR flag) (int_from_sense K sense_chars se)
       \<and> (dxfer_len (sih sp0) = mx \<longrightarrow> fst (sp_speak K sp0 r)
           = map_option (\<lambda>d. SP_THRU K OR d OR flag) (int_from_sense K sense_chars se))
       \<and> (sint se \<le> int (length sense_chars) \<longrightarrow>
            (\<exists>d. int_from_sense K sense_chars se = Some d
               \<and> fst (sp_read K sp0 p mx r) = Some (SP_THRU K OR d OR flag)
               \<and> fst (sp_write K sp0 p mx r) = Some (SP_THRU K OR d OR flag)))"
proof -
  have ok: "\<not> ioctl_ret r <s 0" "\<not> resid (ioctl_sih r) <s 0" "\<not> mx <s resid (ioctl_sih r)"
    "\<not> se <s 0" "\<not> sm <s se"
    using assms(1-3,7,8) by (simp_all add: word_sless_alt word_sle_eq)
  have rd: "fst (sp_read K sp0 p mx r)
           = map_option (\<lambda>d. SP_THRU K OR d OR flag) (int_from_sense K sense_chars se)"
    using ok assms(4,5,6,9,10)
    by (simp add: sp_read_speak sp_speak_exit or.assoc cong: map_option_cong)
  have wr: "fst (sp_write K sp0 p mx r)
           = map_option (\<lambda>d. SP_THRU K OR d OR flag) (int_from_sense K sense_chars se)"
    using ok assms(4,5,6,9,10)
    by (simp add: sp_write_speak sp_speak_exit or.assoc cong: map_option_cong)
  have sp: "dxfer_len (sih sp0) = mx \<longrightarrow> fst (sp_speak K sp0 r)
           = map_option (\<lambda>d. SP_THRU K OR d OR flag) (int_from_sense K sense_chars se)"
    using ok assms(4,5,6,9,10)
    by (simp add: sp_speak_exit or.assoc cong: map_option_cong)
  have tot: "sint se \<le> int (length sense_chars) \<longrightarrow>
            (\<exists>d. int_from_sense K sense_chars se = Some d
               \<and> fst (sp_read K sp0 p mx r) = Some (SP_THRU K OR d OR flag)
               \<and> fst (sp_write K sp0 p mx r) = Some (SP_THRU K OR d OR flag))"
    using int_from_sense_total [of se sense_chars K] rd wr by auto
  from rd wr sp tot show ?thesis by blast
qed

theorem transfer_unclean_decodes_sense_witness:
  "fst (sp_read sample_bits sample_sp (Caller 0) 20 (reply_of 0 5 1 sense_example))
     = Some 0x98052122
   \<and> fst (sp_write sample_bits sample_sp (Caller 0) 20 (reply_of 0 0 1 sense_example))
     = Some 0x88052122"
proof -
  have h5: "0 \<le>s ioctl_ret (reply_of 0 5 1 sense_example)"
    "0 \<le>s resid (ioctl_sih (reply_of 0 5 1 sense_example))"
    "resid (ioctl_sih (reply_of 0 5 1 sense_example)) \<le>s 20"
    "info (ioctl_sih (reply_of 0 5 1 sense_example)) AND SG_INFO_OK_MASK \<noteq> SG_INFO_OK"
    and h0: "0 \<le>s ioctl_ret (reply_of 0 0 1 sense_example)"
    "0 \<le>s resid (ioctl_sih (reply_of 0 0 1 sense_example))"
    "resid (ioctl_sih (reply_of 0 0 1 sense_example)) \<le>s 20"
    "info (ioctl_sih (reply_of 0 0 1 sense_example)) AND SG_INFO_OK_MASK \<noteq> SG_INFO_OK"
    by (simp_all add: reply_of_def SG_INFO_OK_MASK_def SG_INFO_OK_def word_sle_eq)
  have se: "(ucast (sb_len_wr (ioctl_sih (reply_of 0 5 1 sense_example))) :: cint) = 14"
    "(ucast (sb_len_wr (ioctl_sih (reply_of 0 0 1 sense_example))) :: cint) = 14"
    and sm: "(ucast (mx_sb_len (sih sample_sp)) :: cint) = 18"
    by (simp_all add: reply_of_def sense_example_def sample_sp_def usual_sih_def)
  have b: "0 \<le>s (14 :: cint)" "(14 :: cint) \<le>s 18"
    by (simp_all add: word_sle_eq)
  have dr: "deref (reply_of 0 5 1 sense_example) (sbp (sih sample_sp))
      = sense_example @ replicate (16384 - length sense_example) 0"
    "deref (reply_of 0 0 1 sense_example) (sbp (sih sample_sp))
      = sense_example @ replicate (16384 - length sense_example) 0"
    by (simp_all add: reply_of_def sample_sp_def usual_sih_def)
  show ?thesis
    using transfer_unclean_decodes_sense [OF h5 se(1) [symmetric] sm [symmetric] b dr(1) [symmetric] refl,
        of sample_bits "Caller 0"]
      transfer_unclean_decodes_sense [OF h0 se(2) [symmetric] sm [symmetric] b dr(2) [symmetric] refl,
        of sample_bits "Caller 0"]
    by (simp add: sample_decoded reply_of_def) (simp add: sample_bits_def)
qed

section \<open>The timeout\<close>

lemma ceil_ms_div: "ceil_ms n = - ((- n) div 1000000)"
  using ceiling_divide_eq_div [of n 1000000, where ?'a = real] by (simp add: ceil_ms_def)

lemma sdiv_1000: "(x::int) sdiv 1000 = (if 0 \<le> x then x div 1000 else - ((- x) div 1000))"
  by (cases "x = 0") (auto simp add: signed_divide_int_def sgn_if abs_if)

lemma sint_bounds32: "- 2147483648 \<le> sint (x::cint)" "sint (x::cint) < 2147483648"
  using sint_ge [of x] sint_lt [of x] by simp_all

lemma sint_c_div_1000: "sint (c_div a 1000) = sint a sdiv 1000"
proof -
  have "- 2147483648 \<le> sint a sdiv 1000" "sint a sdiv 1000 < 2147483648"
    using sint_bounds32 [of a] unfolding sdiv_1000 by (simp_all split: if_splits) linarith+
  then show ?thesis
    by (simp add: c_div_def sint_word_of_int32)
qed

lemma late_ms_word: "late_ms s ns = word_of_int (sint s * 1000 + sint (c_div (c_div (ns + 999999) 1000) 1000))"
  by (simp add: late_ms_def)

lemma stb31_shift: "\<exists>j. signed_take_bit 31 (x::int) = x - 4294967296 * j"
proof -
  have "signed_take_bit 31 x = (x + 2147483648) mod 4294967296 - 2147483648"
    by (simp add: signed_take_bit_eq_take_bit_shift take_bit_eq_mod)
  also have "\<dots> = x - 4294967296 * ((x + 2147483648) div 4294967296)"
    by (simp add: mod_div_decomp minus_mult_div_eq_mod [symmetric])
  finally show ?thesis by blast
qed

lemma sint_word_of_int_shift: "\<exists>j. sint (word_of_int x :: cint) = x - 4294967296 * j"
  using stb31_shift [of x] by (simp add: sint_sbintrunc')

lemma sdiv_1000_near:
  assumes "(m::int) sdiv 1000 = q"
  shows "q * 1000 - 1000 < m" and "m < q * 1000 + 1000"
  using assms unfolding sdiv_1000 by (simp_all split: if_splits)

lemma sdiv_sdiv_bound:
  assumes "- 2147483648 \<le> (x::int)" "x < 2147483648"
  shows "- 2147 \<le> x sdiv 1000 sdiv 1000" and "x sdiv 1000 sdiv 1000 \<le> 2147"
  using assms unfolding sdiv_1000 by (simp_all split: if_splits) linarith+

lemma sdiv_sdiv_low:
  assumes "(x::int) \<le> - 2146483650"
  shows "x sdiv 1000 sdiv 1000 \<le> - 2146"
  using assms unfolding sdiv_1000 by (simp split: if_splits) linarith+

lemma sdiv_sdiv_ceil:
  assumes "- 1000000 < (n::int)"
  shows "(n + 999999) sdiv 1000 sdiv 1000 = ceil_ms n"
  using assms unfolding sdiv_1000 ceil_ms_div by (simp split: if_splits) linarith+

lemma sp_late_accepted:
  assumes acc: "c_div (late_ms s ns) 1000 = s"
  shows "sint (late_ms s ns) = sint s * 1000 + sint (ns + 999999) sdiv 1000 sdiv 1000"
    and "- 1000 < sint (ns + 999999) sdiv 1000 sdiv 1000"
    and "sint (ns + 999999) sdiv 1000 sdiv 1000 < 1000"
proof -
  define k where "k = sint (ns + 999999) sdiv 1000 sdiv 1000"
  define M where "M = sint (late_ms s ns)"
  have kb: "- 2147 \<le> k" "k \<le> 2147"
    unfolding k_def using sint_bounds32 [of "ns + 999999"] by (auto intro: sdiv_sdiv_bound)
  have kk: "sint (c_div (c_div (ns + 999999) 1000) 1000) = k"
    by (simp add: sint_c_div_1000 k_def)
  obtain j where j: "M = sint s * 1000 + k - 4294967296 * j"
    unfolding M_def using sint_word_of_int_shift [of "sint s * 1000 + k"] late_ms_word [of s ns] kk
    by auto
  have "M sdiv 1000 = sint s"
    unfolding M_def using acc sint_c_div_1000 [of "late_ms s ns"] by simp
  then have near: "sint s * 1000 - 1000 < M" "M < sint s * 1000 + 1000"
    by (rule sdiv_1000_near)+
  have "j = 0"
    using j kb near by (cases "j \<le> - 1"; cases "1 \<le> j") linarith+
  with j near show "sint (late_ms s ns) = sint s * 1000 + sint (ns + 999999) sdiv 1000 sdiv 1000"
    and "- 1000 < sint (ns + 999999) sdiv 1000 sdiv 1000"
    and "sint (ns + 999999) sdiv 1000 sdiv 1000 < 1000"
    unfolding M_def k_def by simp_all
qed

lemma sp_late_no_overflow:
  assumes "- 1000 < sint ((ns::cint) + 999999) sdiv 1000 sdiv 1000"
  shows "sint (ns + 999999) = sint ns + 999999"
proof -
  have e: "(word_of_int (sint ns + 999999) :: cint) = ns + 999999"
    by simp
  obtain j where "sint (word_of_int (sint ns + 999999) :: cint) = sint ns + 999999 - 4294967296 * j"
    using sint_word_of_int_shift [of "sint ns + 999999"] by blast
  then have j: "sint (ns + 999999) = sint ns + 999999 - 4294967296 * j"
    by (simp only: e)
  have b: "- 2147483648 \<le> sint (ns + 999999)" "sint (ns + 999999) < 2147483648"
    "- 2147483648 \<le> sint ns" "sint ns < 2147483648"
    using sint_bounds32 [of "ns + 999999"] sint_bounds32 [of ns] by simp_all
  have "j = 0 \<or> j = 1"
    using j b by (cases "j \<le> - 1"; cases "2 \<le> j") linarith+
  moreover have "j \<noteq> 1"
  proof
    assume "j = 1"
    with j b have "sint (ns + 999999) \<le> - 2146483650" by linarith
    then have "sint (ns + 999999) sdiv 1000 sdiv 1000 \<le> - 2146" by (rule sdiv_sdiv_low)
    with assms show False by linarith
  qed
  ultimately show ?thesis using j by auto
qed

lemma sp_late_fatal_iff:
  "(\<exists>e. sp_late sp0 s ns = Inl e) \<longleftrightarrow> c_div (late_ms s ns) 1000 \<noteq> s"
  by (simp add: sp_late_def Let_def)

lemma sp_late_Inr:
  assumes "sp_late sp0 s ns = Inr (r, sp1)"
  shows "c_div (late_ms s ns) 1000 = s"
    and "sp1 = sp0\<lparr>sih := (sih sp0)\<lparr>timeout := late_ms s ns\<rparr>\<rparr>"
    and "r = (late_ms s ns mod 1000) * 1000000"
  using assms by (simp_all add: sp_late_def Let_def split: if_splits) auto

lemma uint_mod_times:
  "uint (((t :: cuint) mod 1000) * 1000000) = (uint t mod 1000) * 1000000"
proof -
  have m: "uint (t mod 1000) = uint t mod 1000"
    by (simp add: uint_mod_distrib)
  have b: "0 \<le> uint t mod 1000" "uint t mod 1000 < 1000"
    by simp_all
  have "uint ((t mod 1000) * 1000000) = (uint (t mod 1000) * 1000000) mod 4294967296"
    by (simp add: uint_word_ariths)
  also have "\<dots> = (uint t mod 1000) * 1000000"
    unfolding m using b by (intro mod_pos_pos_trivial) linarith+
  finally show ?thesis .
qed

lemma sdiv_1000_nonneg:
  assumes "(1000 * S + k) sdiv 1000 = (S::int)" and "1 \<le> k" and "k < 1000"
  shows "0 \<le> S"
  using assms unfolding sdiv_1000 by (simp split: if_splits)

lemma sint_times_million:
  "sint (((t :: cuint) mod 1000) * 1000000) = (uint t mod 1000) * 1000000"
proof -
  have b: "0 \<le> uint t mod 1000" "uint t mod 1000 < 1000"
    by simp_all
  then have "(uint t mod 1000) * 1000000 < 2147483648"
    by linarith
  then show ?thesis
    using b(1) by (simp add: sint32_uint uint_mod_times)
qed

lemma sp_late_stored:
  assumes a: "sp_late sp0 s ns = Inr (r, sp1)" and n: "- 1000000 < sint ns"
  shows "sint (late_ms s ns) = sint s * 1000 + ceil_ms (sint ns)"
    and "sint (late_ms s ns) sdiv 1000 = sint s"
    and "ceil_ms (sint ns) < 1000"
proof -
  note f = sp_late_Inr [OF a]
  note acc = sp_late_accepted [OF f(1)]
  have "sint (ns + 999999) = sint ns + 999999"
    by (rule sp_late_no_overflow [OF acc(2)])
  then have k: "sint (ns + 999999) sdiv 1000 sdiv 1000 = ceil_ms (sint ns)"
    using sdiv_sdiv_ceil [OF n] by simp
  show "sint (late_ms s ns) = sint s * 1000 + ceil_ms (sint ns)"
    using acc(1) k by simp
  show "sint (late_ms s ns) sdiv 1000 = sint s"
    using f(1) sint_c_div_1000 [of "late_ms s ns"] by simp
  show "ceil_ms (sint ns) < 1000"
    using acc(3) k by simp
qed

text \<open>
  C7, as amended. Write \<open>ms\<close> for the \<open>int\<close> of line 164 and "the stored value" for the
  unsigned value of the timeout field after the call. For every \<open>s\<close> and \<open>ns\<close>, \<open>sp_late\<close>
  exits exactly when \<open>ms / 1000\<close> is not \<open>s\<close>; when it returns, it has stored \<open>ms\<close>
  converted to unsigned and touched nothing else, and it returns the stored value
  modulo 1000, times 1000000. When it returns and \<open>s\<close> is not negative and \<open>ns\<close> is
  greater than -1000000 (in particular, not negative), the stored value is \<open>s\<close> times
  1000 plus the ceiling of \<open>ns\<close> in milliseconds, with no wrap-around in \<open>ms\<close>. When it
  returns and \<open>ns\<close> is from 1 to 999999, \<open>s\<close> is not negative and the stored value is \<open>s\<close>
  times 1000 plus 1; \<open>sp_late(sp, 0, 1)\<close> stores 1.
\<close>

theorem sp_late_rounds_up:
  "((\<exists>e. sp_late sp0 s ns = Inl e) \<longleftrightarrow> c_div (late_ms s ns) 1000 \<noteq> s)
   \<and> (sp_late sp0 s ns = Inr (r, sp1) \<longrightarrow>
        sp1 = sp0\<lparr>sih := (sih sp0)\<lparr>timeout := late_ms s ns\<rparr>\<rparr>
      \<and> sint r = (uint (timeout (sih sp1)) mod 1000) * 1000000)
   \<and> (sp_late sp0 s ns = Inr (r, sp1) \<and> 0 \<le>s s \<and> - 1000000 <s ns \<longrightarrow>
        uint (timeout (sih sp1)) = sint s * 1000 + ceil_ms (sint ns)
      \<and> sint (late_ms s ns) = sint s * 1000 + ceil_ms (sint ns)
      \<and> sint r = ((sint s * 1000 + ceil_ms (sint ns)) mod 1000) * 1000000)
   \<and> (sp_late sp0 s ns = Inr (r, sp1) \<and> 1 \<le>s ns \<and> ns \<le>s 999999 \<longrightarrow>
        0 \<le>s s \<and> uint (timeout (sih sp1)) = sint s * 1000 + 1)
   \<and> sp_late sp0 0 1 = Inr (1000000, sp0\<lparr>sih := (sih sp0)\<lparr>timeout := 1\<rparr>\<rparr>)"
proof -
  have ret: "sp_late sp0 s ns = Inr (r, sp1) \<longrightarrow>
        sp1 = sp0\<lparr>sih := (sih sp0)\<lparr>timeout := late_ms s ns\<rparr>\<rparr>
      \<and> sint r = (uint (timeout (sih sp1)) mod 1000) * 1000000"
  proof
    assume a: "sp_late sp0 s ns = Inr (r, sp1)"
    note f = sp_late_Inr [OF a]
    from f(2) have t: "timeout (sih sp1) = late_ms s ns" by simp
    show "sp1 = sp0\<lparr>sih := (sih sp0)\<lparr>timeout := late_ms s ns\<rparr>\<rparr>
      \<and> sint r = (uint (timeout (sih sp1)) mod 1000) * 1000000"
      using f(2) by (simp only: t f(3) sint_times_million) simp
  qed
  have stored: "uint (timeout (sih sp1)) = sint s * 1000 + ceil_ms (sint ns)
      \<and> sint (late_ms s ns) = sint s * 1000 + ceil_ms (sint ns)
      \<and> sint r = ((sint s * 1000 + ceil_ms (sint ns)) mod 1000) * 1000000"
    if a: "sp_late sp0 s ns = Inr (r, sp1)" and s0: "0 \<le> sint s" and n: "- 1000000 < sint ns"
  proof -
    note f = sp_late_Inr [OF a]
    from f(2) have t: "timeout (sih sp1) = late_ms s ns" by simp
    note m = sp_late_stored [OF a n]
    have c0: "0 \<le> ceil_ms (sint ns)"
      using n unfolding ceil_ms_div by linarith
    with s0 m(1) have "0 \<le> sint (late_ms s ns)" by simp
    then have u: "uint (late_ms s ns) = sint (late_ms s ns)"
      using uint_bounded [of "late_ms s ns"] by (simp add: sint32_uint split: if_splits)
    have "sint r = (uint (timeout (sih sp1)) mod 1000) * 1000000"
      using ret a by blast
    with u m(1) t show ?thesis by simp
  qed
  have up: "sp_late sp0 s ns = Inr (r, sp1) \<and> 0 \<le>s s \<and> - 1000000 <s ns \<longrightarrow>
        uint (timeout (sih sp1)) = sint s * 1000 + ceil_ms (sint ns)
      \<and> sint (late_ms s ns) = sint s * 1000 + ceil_ms (sint ns)
      \<and> sint r = ((sint s * 1000 + ceil_ms (sint ns)) mod 1000) * 1000000"
    using stored by (simp add: word_sle_eq word_sless_alt)
  have one: "sp_late sp0 s ns = Inr (r, sp1) \<and> 1 \<le>s ns \<and> ns \<le>s 999999 \<longrightarrow>
        0 \<le>s s \<and> uint (timeout (sih sp1)) = sint s * 1000 + 1"
  proof
    assume h: "sp_late sp0 s ns = Inr (r, sp1) \<and> 1 \<le>s ns \<and> ns \<le>s 999999"
    then have a: "sp_late sp0 s ns = Inr (r, sp1)"
      and b: "1 \<le> sint ns" "sint ns \<le> 999999"
      by (simp_all add: word_sle_eq)
    from b have n: "- 1000000 < sint ns" by linarith
    from b have c: "ceil_ms (sint ns) = 1" unfolding ceil_ms_div by linarith
    note m = sp_late_stored [OF a n]
    have "(1000 * sint s + 1) sdiv 1000 = sint s"
      using m(1,2) c by (simp add: mult.commute)
    then have s0: "0 \<le> sint s"
      by (rule sdiv_1000_nonneg) simp_all
    from stored [OF a s0 n] c s0
    show "0 \<le>s s \<and> uint (timeout (sih sp1)) = sint s * 1000 + 1"
      by (simp add: word_sle_eq)
  qed
  have ex: "sp_late sp0 0 1 = Inr (1000000, sp0\<lparr>sih := (sih sp0)\<lparr>timeout := 1\<rparr>\<rparr>)"
    by (simp add: sp_late_def late_ms_def Let_def c_div_def signed_divide_int_def)
  from sp_late_fatal_iff [of sp0 s ns] ret up one ex show ?thesis by blast
qed

theorem sp_late_rounds_up_witness:
  "sp_late sample_sp 2 500 = Inr (1000000, sample_sp\<lparr>sih := usual_sih\<lparr>timeout := 2001\<rparr>\<rparr>)
   \<and> uint (2001 :: cuint) = sint (2 :: cint) * 1000 + ceil_ms (sint (500 :: cint))
   \<and> sint (1000000 :: cint) = (uint (2001 :: cuint) mod 1000) * 1000000
   \<and> (\<exists>e. sp_late sample_sp 2147484 0 = Inl e)"
proof -
  have a: "sp_late sample_sp 2 500 = Inr (1000000, sample_sp\<lparr>sih := usual_sih\<lparr>timeout := 2001\<rparr>\<rparr>)"
    by (simp add: sp_late_def late_ms_def Let_def c_div_def signed_divide_int_def sample_sp_def)
  have b: "- 1000000 <s (500 :: cint)" "1 \<le>s (500 :: cint) \<and> (500 :: cint) \<le>s 999999" "0 \<le>s (2 :: cint)"
    by (simp_all add: word_sle_eq)
  have c: "c_div (late_ms 2147484 0) 1000 \<noteq> 2147484"
    by (simp add: late_ms_def c_div_def signed_divide_int_def)
  show ?thesis
    using sp_late_rounds_up [of sample_sp 2 500 1000000 "sample_sp\<lparr>sih := usual_sih\<lparr>timeout := 2001\<rparr>\<rparr>"]
      sp_late_rounds_up [of sample_sp 2147484 0 0 sample_sp] a b c
    by simp
qed

text \<open>
  C7 as stated, for every \<open>s\<close> and \<open>ns\<close> accepted, fails at two accepted inputs.
  \<open>sp_late(sp, -1, 0)\<close> stores 4294966296 in the unsigned timeout field and returns
  296000000: the stored value is not -1000, and the value returned is not what -1000
  modulo 1000 gives, which is 0. \<open>sp_late(sp, 0, -1000000)\<close> stores 0, because the
  division of line 164 truncates towards zero, while 0 times 1000 plus the ceiling of
  -1000000 ns is -1.
\<close>

theorem sp_late_negative_counterexample:
  "sp_late sample_sp (- 1) 0
     = Inr (296000000, sample_sp\<lparr>sih := usual_sih\<lparr>timeout := 4294966296\<rparr>\<rparr>)
   \<and> uint (timeout (sih (sample_sp\<lparr>sih := usual_sih\<lparr>timeout := 4294966296\<rparr>\<rparr>)))
       \<noteq> sint (- 1 :: cint) * 1000 + ceil_ms (sint (0 :: cint))
   \<and> sint (296000000 :: cint)
       \<noteq> ((sint (- 1 :: cint) * 1000 + ceil_ms (sint (0 :: cint))) mod 1000) * 1000000
   \<and> sp_late sample_sp 0 (- 1000000)
     = Inr (0, sample_sp\<lparr>sih := usual_sih\<lparr>timeout := 0\<rparr>\<rparr>)
   \<and> uint (timeout (sih (sample_sp\<lparr>sih := usual_sih\<lparr>timeout := 0\<rparr>\<rparr>)))
       \<noteq> sint (0 :: cint) * 1000 + ceil_ms (sint (- 1000000 :: cint))"
  by (simp add: sp_late_def late_ms_def Let_def c_div_def signed_divide_int_def sample_sp_def
      ceil_ms_div)

end
